theory Spec2Isabelle
  imports Complex_Main
begin

section \<open>Python strings\<close>

text \<open>
  A Python \<open>str\<close> is a sequence of Unicode code points and \<open>len\<close> counts code points.
  The Turkish letters of the sources lie beyond one byte (U+0131, U+011F, ...), so a
  string is a list of code points, not a list of 8-bit characters.
\<close>

type_synonym ustr = "nat list"

definition ascii :: "string \<Rightarrow> ustr" where
  "ascii s = map of_char s"

text \<open>
  \<open>str.isspace\<close>, which both \<open>str.strip()\<close> and the \<open>\s\<close> class of \<open>re\<close> (on \<open>str\<close>
  patterns) consult: the 29 code points of CPython's whitespace table.
\<close>

definition is_space :: "nat \<Rightarrow> bool" where
  "is_space c =
     ((9 \<le> c \<and> c \<le> 13) \<or> (28 \<le> c \<and> c \<le> 32) \<or> c = 133 \<or> c = 160 \<or> c = 5760 \<or>
      (8192 \<le> c \<and> c \<le> 8202) \<or> c = 8232 \<or> c = 8233 \<or> c = 8239 \<or> c = 8287 \<or>
      c = 12288)"

text \<open>\<open>s.strip()\<close>: leading and trailing whitespace removed.\<close>

definition strip :: "ustr \<Rightarrow> ustr" where
  "strip s = rev (dropWhile is_space (rev (dropWhile is_space s)))"

text \<open>
  \<open>\w\<close> of \<open>re\<close> on a \<open>str\<close> pattern: the underscore and every code point for which
  \<open>str.isalnum\<close> holds. That table belongs to the Unicode database of the interpreter,
  not to the repository; it is the parameter \<open>isalnum\<close> of everything that depends on it.
\<close>

definition is_word :: "(nat \<Rightarrow> bool) \<Rightarrow> nat \<Rightarrow> bool" where
  "is_word isalnum c = (isalnum c \<or> c = 95)"

text \<open>
  The restriction of \<open>str.isalnum\<close> to U+0000..U+017F (Basic Latin, Latin-1 Supplement,
  Latin Extended-A), which holds every letter of the Turkish alphabet. It stands in for
  the table wherever a concrete text of that range is evaluated.
\<close>

definition latin_isalnum :: "nat \<Rightarrow> bool" where
  "latin_isalnum c =
     ((48 \<le> c \<and> c \<le> 57) \<or> (65 \<le> c \<and> c \<le> 90) \<or> (97 \<le> c \<and> c \<le> 122) \<or>
      c = 170 \<or> c = 178 \<or> c = 179 \<or> c = 181 \<or> c = 185 \<or> c = 186 \<or>
      (188 \<le> c \<and> c \<le> 190) \<or> (192 \<le> c \<and> c \<le> 214) \<or> (216 \<le> c \<and> c \<le> 246) \<or>
      (248 \<le> c \<and> c \<le> 383))"

section \<open>preprocess_text\<close>

text \<open>
  \<open>re.sub(r'\s+', ' ', text)\<close>: scanning from the left, every maximal run of whitespace
  is replaced by one space (U+0020).
\<close>

function sub_ws_runs :: "ustr \<Rightarrow> ustr" where
  "sub_ws_runs [] = []"
| "sub_ws_runs (c # cs) =
     (if is_space c then 32 # sub_ws_runs (dropWhile is_space cs) else c # sub_ws_runs cs)"
  by pat_completeness auto
termination
  by (relation "measure length") (auto simp: less_Suc_eq_le length_dropWhile_le)

text \<open>
  The character class \<open>[^\w\s\<dots>.,!?()-]\<close> of the second substitution, negated: a code
  point is kept when it is a word character, whitespace, one of the thirteen letters
  listed (c-cedilla 231, g-breve 287, dotless i 305, o-diaeresis 246, s-cedilla 351,
  u-diaeresis 252, their capitals 199, 286, 73, 304, 214, 350, 220) or one of
  \<open>. , ! ? ( ) -\<close>.
\<close>

definition keep_char :: "(nat \<Rightarrow> bool) \<Rightarrow> nat \<Rightarrow> bool" where
  "keep_char isalnum c =
     (is_word isalnum c \<or> is_space c \<or>
      c \<in> {231, 287, 305, 246, 351, 252, 199, 286, 73, 304, 214, 350, 220} \<or>
      c \<in> {46, 44, 33, 63, 40, 41, 45})"

definition preprocess_text :: "(nat \<Rightarrow> bool) \<Rightarrow> ustr \<Rightarrow> ustr" where
  "preprocess_text isalnum text =
     (let text = sub_ws_runs text;
          text = filter (keep_char isalnum) text;
          text = strip text
      in text)"

section \<open>Slices and searches\<close>

text \<open>
  \<open>s[i:j]\<close> for arbitrary integers: a negative index counts from the end, and every index
  is clamped to \<open>0..len(s)\<close>; the slice is empty when the adjusted stop is not beyond
  the adjusted start.
\<close>

definition adjust_index :: "nat \<Rightarrow> int \<Rightarrow> nat" where
  "adjust_index n i =
     (if i < 0 then (if i + int n < 0 then 0 else nat (i + int n))
      else if int n < i then n else nat i)"

definition slice :: "'a list \<Rightarrow> int \<Rightarrow> int \<Rightarrow> 'a list" where
  "slice s i j =
     (let a = adjust_index (length s) i; b = adjust_index (length s) j
      in take (b - a) (drop a s))"

text \<open>\<open>s.rfind(c)\<close> for a single character: the highest index holding \<open>c\<close>, or \<open>-1\<close>.\<close>

primrec rfind :: "ustr \<Rightarrow> nat \<Rightarrow> int" where
  "rfind [] c = - 1"
| "rfind (x # xs) c =
     (let r = rfind xs c in if 0 \<le> r then r + 1 else if x = c then 0 else - 1)"

section \<open>The product \<open>chunk_size * 0.7\<close>\<close>

datatype error = TypeError | OverflowError

text \<open>
  Python evaluates \<open>chunk_size * 0.7\<close> in binary64: the integer is converted to a double
  (correctly rounded, ties to even; \<open>OverflowError\<close> when the result would reach
  \<open>2^1024\<close>), and the product with the double nearest to 0.7, which is
  \<open>6305039478318694 / 2^53\<close>, is rounded again. The later comparison of an \<open>int\<close> with
  that double is exact, so the double is kept as the rational it denotes.
\<close>

fun bit_length :: "nat \<Rightarrow> nat" where
  "bit_length n = (if n = 0 then 0 else Suc (bit_length (n div 2)))"

declare bit_length.simps [simp del]

text \<open>Rounding a natural number to 53 significant bits, ties to even.\<close>

definition round53 :: "nat \<Rightarrow> nat" where
  "round53 n =
     (let b = bit_length n in
      if b \<le> 53 then n
      else
        let s = b - 53; q = n div 2 ^ s; r = n mod 2 ^ s; h = 2 ^ (s - 1)
        in (if h < r \<or> (r = h \<and> odd q) then q + 1 else q) * 2 ^ s)"

definition times_0_7 :: "int \<Rightarrow> error + rat" where
  "times_0_7 n =
     (let v = round53 (nat \<bar>n\<bar>) in
      if 2 ^ 1024 \<le> v then Inl OverflowError
      else Inr (of_int (sgn n) * of_nat (round53 (v * 6305039478318694)) / 2 ^ 53))"

section \<open>chunk_text\<close>

text \<open>
  One pass through the body of the \<open>while\<close> loop, up to the chunk that is appended and
  the value of \<open>end\<close> from which the cursor is advanced.
\<close>

definition chunk_step :: "ustr \<Rightarrow> int \<Rightarrow> int \<Rightarrow> error + (ustr \<times> int)" where
  "chunk_step text chunk_size start =
     (let end = start + chunk_size;
          chunk = slice text start end
      in if end < int (length text) then
           let last_period = rfind chunk 46;
               last_question = rfind chunk 63;
               last_exclamation = rfind chunk 33;
               last_sentence_end = max (max last_period last_question) last_exclamation
           in (case times_0_7 chunk_size of
                 Inl e \<Rightarrow> Inl e
               | Inr threshold \<Rightarrow>
                   if threshold < of_int last_sentence_end
                   then Inr (slice chunk 0 (last_sentence_end + 1), start + last_sentence_end + 1)
                   else Inr (chunk, end))
         else Inr (chunk, end))"

text \<open>
  The loop. \<open>None\<close> is a run that never leaves the loop; \<open>Some (Inl e)\<close> is an exception
  raised inside it; \<open>Some (Inr chunks)\<close> is the list returned.
\<close>

partial_function (option) chunk_loop ::
  "ustr \<Rightarrow> int \<Rightarrow> int \<Rightarrow> int \<Rightarrow> ustr list \<Rightarrow> (error + ustr list) option" where
  "chunk_loop text chunk_size overlap start chunks =
     (if start < int (length text) then
        (case chunk_step text chunk_size start of
           Inl e \<Rightarrow> Some (Inl e)
         | Inr (chunk, end) \<Rightarrow>
             let chunks' = chunks @ [strip chunk];
                 start' = end - overlap
             in if int (length text) \<le> start' then Some (Inr chunks')
                else chunk_loop text chunk_size overlap start' chunks')
      else Some (Inr chunks))"

definition chunk_text :: "ustr \<Rightarrow> int \<Rightarrow> int \<Rightarrow> (error + ustr list) option" where
  "chunk_text text chunk_size overlap =
     (if int (length text) \<le> chunk_size then Some (Inr [text])
      else chunk_loop text chunk_size overlap 0 [])"


section \<open>create_documents\<close>

text \<open>
  The values a dataset row or a document's \<open>meta\<close> can hold. The code looks at a value
  only to ask whether it is a string, how long that string is, and whether the value is
  truthy; \<open>POther b\<close> stands for any object that is neither \<open>None\<close>, a string nor an
  integer, with \<open>b\<close> its truth value.
\<close>

datatype pyval = PNone | PStr ustr | PInt int | POther bool

fun truthy :: "pyval \<Rightarrow> bool" where
  "truthy PNone = False"
| "truthy (PStr s) = (s \<noteq> [])"
| "truthy (PInt n) = (n \<noteq> 0)"
| "truthy (POther b) = b"

text \<open>A \<open>dict\<close> with string keys, in insertion order.\<close>

type_synonym pydict = "(ustr \<times> pyval) list"

definition dict_get :: "pydict \<Rightarrow> ustr \<Rightarrow> pyval \<Rightarrow> pyval" where
  "dict_get d key dflt = (case map_of d key of Some v \<Rightarrow> v | None \<Rightarrow> dflt)"

text \<open>Haystack's \<open>Document\<close>, as far as the repository reads or writes it.\<close>

record document =
  content :: ustr
  meta :: pydict
  score :: pyval

text \<open>
  The \<open>for key, value in item.items()\<close> search of the last branch: the first value that is
  a string of more than 100 characters, \<open>None\<close> when there is none.
\<close>

definition find_text_field :: "pydict \<Rightarrow> pyval" where
  "find_text_field item =
     (case find (\<lambda>(key, value). case value of PStr s \<Rightarrow> 100 < length s | _ \<Rightarrow> False) item of
        None \<Rightarrow> PNone
      | Some (key, value) \<Rightarrow> value)"

text \<open>The \<open>if 'text' in item: \<dots> elif \<dots> else\<close> chain that sets \<open>text\<close>.\<close>

definition resolve_text :: "pydict \<Rightarrow> pyval" where
  "resolve_text item =
     (case map_of item (ascii ''text'') of
        Some v \<Rightarrow> v
      | None \<Rightarrow>
     (case map_of item (ascii ''content'') of
        Some v \<Rightarrow> v
      | None \<Rightarrow>
     (case map_of item (ascii ''article'') of
        Some v \<Rightarrow> v
      | None \<Rightarrow>
     (case map_of item (ascii ''body'') of
        Some v \<Rightarrow> v
      | None \<Rightarrow> find_text_field item))))"

text \<open>The inner loop over \<open>enumerate(chunks)\<close>: the documents it appends, in order.\<close>

definition chunk_documents :: "pydict \<Rightarrow> ustr list \<Rightarrow> document list" where
  "chunk_documents item chunks =
     map (\<lambda>(i, chunk).
            \<lparr>content = chunk,
             meta = [(ascii ''title'', dict_get item (ascii ''title'') (PStr (ascii ''Unknown''))),
                     (ascii ''url'', dict_get item (ascii ''url'') (PStr [])),
                     (ascii ''chunk_id'', PInt (int i)),
                     (ascii ''total_chunks'', PInt (int (length chunks))),
                     (ascii ''source'', PStr (ascii ''wikipedia''))],
             score = PNone\<rparr>)
         (filter (\<lambda>(i, chunk). \<not> length (strip chunk) < 50) (enumerate 0 chunks))"

text \<open>
  The body of the outer loop for one row: the documents the row contributes.
  \<open>preprocess_text\<close> hands its argument to \<open>re.sub\<close>, which raises \<open>TypeError\<close> for a
  value that is not a string; \<open>chunk_text\<close> is called with its defaults, 500 and 50.
\<close>

definition item_documents :: "(nat \<Rightarrow> bool) \<Rightarrow> pydict \<Rightarrow> (error + document list) option" where
  "item_documents isalnum item =
     (let text = resolve_text item in
      if \<not> truthy text then Some (Inr [])
      else
        (case text of
           PStr s \<Rightarrow>
             (let text = preprocess_text isalnum s in
              case chunk_text text 500 50 of
                None \<Rightarrow> None
              | Some (Inl e) \<Rightarrow> Some (Inl e)
              | Some (Inr chunks) \<Rightarrow> Some (Inr (chunk_documents item chunks)))
         | _ \<Rightarrow> Some (Inl TypeError)))"

text \<open>
  The outer loop, with the list \<open>documents\<close> it extends. An exception leaves the
  function at once; the list returned at the end is also stored in \<open>self.documents\<close>.
  The line printed before the return is a fixed ASCII text with the number of documents.
\<close>

fun create_documents_loop ::
  "(nat \<Rightarrow> bool) \<Rightarrow> pydict list \<Rightarrow> document list \<Rightarrow> (error + document list) option" where
  "create_documents_loop isalnum [] documents = Some (Inr documents)"
| "create_documents_loop isalnum (item # data) documents =
     (case item_documents isalnum item of
        None \<Rightarrow> None
      | Some (Inl e) \<Rightarrow> Some (Inl e)
      | Some (Inr docs) \<Rightarrow> create_documents_loop isalnum data (documents @ docs))"

definition create_documents :: "(nat \<Rightarrow> bool) \<Rightarrow> pydict list \<Rightarrow> (error + document list) option" where
  "create_documents isalnum data = create_documents_loop isalnum data []"

section \<open>TurkishRAGPipeline.query\<close>

text \<open>
  The collaborators of \<open>query\<close> are library objects. \<open>pipeline_run\<close> is
  \<open>self.pipeline.run\<close> for a question under the retriever's current \<open>top_k\<close>: it raises,
  or returns a result in which \<open>result['retriever']['documents']\<close> is present
  (\<open>Some\<close>) or not (\<open>None\<close>). \<open>model\<close> is \<open>self.model\<close>: \<open>None\<close> without an API key,
  else the function from a prompt to \<open>generate_content(prompt).text\<close>, which may raise.
  The documents retrieved have a string as \<open>content\<close>, as those of \<open>create_documents\<close> do.

  Of a raised object \<open>query\<close> uses two things: whether it is an instance of \<open>Exception\<close>
  (\<open>PyException\<close>), which \<open>except Exception\<close> catches, or only of \<open>BaseException\<close>
  (\<open>PyBaseException\<close>, as \<open>KeyboardInterrupt\<close> and \<open>SystemExit\<close> are), which it does not
  catch; and its text \<open>str(e)\<close>.
\<close>

datatype py_exception = PyException ustr | PyBaseException ustr

record rag_pipeline =
  retriever_top_k :: int
  pipeline_run :: "ustr \<Rightarrow> int \<Rightarrow> py_exception + document list option"
  model :: "(ustr \<Rightarrow> py_exception + ustr) option"

text \<open>The values of the dictionary that \<open>query\<close> returns.\<close>

datatype resval = RStr ustr | RDocs "pydict list"

text \<open>
  The dictionaries built from the retrieved documents. A \<open>Document\<close> always has the
  attribute \<open>score\<close>, so \<open>getattr(doc, 'score', 0.0)\<close> is \<open>doc.score\<close>; it is copied, never
  inspected.
\<close>

definition format_documents :: "document list \<Rightarrow> pydict list" where
  "format_documents documents =
     map (\<lambda>doc. [(ascii ''content'', PStr (content doc)),
                 (ascii ''title'', dict_get (meta doc) (ascii ''title'') (PStr (ascii ''Unknown''))),
                 (ascii ''url'', dict_get (meta doc) (ascii ''url'') (PStr [])),
                 (ascii ''score'', score doc)])
         documents"

text \<open>\<open>sep.join(parts)\<close>.\<close>

fun join :: "ustr \<Rightarrow> ustr list \<Rightarrow> ustr" where
  "join sep [] = []"
| "join sep [x] = x"
| "join sep (x # y # ys) = x @ sep @ join sep (y # ys)"

text \<open>\<open>str(n)\<close> for a length.\<close>

fun str_of_nat :: "nat \<Rightarrow> ustr" where
  "str_of_nat n = (if n < 10 then [48 + n] else str_of_nat (n div 10) @ [48 + n mod 10])"

declare str_of_nat.simps [simp del]

text \<open>
  The three message templates, code point by code point where the letters are not
  ASCII (252 u-diaeresis, 231 c-cedilla, 305 dotless i, 351 s-cedilla, 287 g-breve,
  220 capital U-diaeresis; 10 is the newline).
\<close>

definition prompt :: "ustr \<Rightarrow> ustr \<Rightarrow> ustr" where
  "prompt context_text question =
     ascii ''Sen T'' @ [252] @ ascii ''rk'' @ [231] @ ascii ''e bir futbol asistan'' @ [305] @
     ascii ''s'' @ [305] @ ascii ''n. A'' @ [351] @ ascii ''a'' @ [287, 305] @ ascii ''daki ba'' @
     [287] @ ascii ''lam bilgilerini kullanarak kullan'' @ [305] @ ascii ''c'' @ [305] @ ascii ''n'' @
     [305] @ ascii ''n sorusunu T'' @ [252] @ ascii ''rk'' @ [231] @ ascii ''e olarak yan'' @ [305] @
     ascii ''tla.'' @ [10, 10] @ ascii ''Ba'' @ [287] @ ascii ''lam:'' @ [10] @ context_text @
     [10, 10] @ ascii ''Soru: '' @ question @ [10, 10] @ ascii ''Yan'' @ [305] @ ascii ''t:''"

definition no_key_answer :: "nat \<Rightarrow> ustr" where
  "no_key_answer n =
     ascii ''API key bulunamad'' @ [305] @ ascii ''. '' @ str_of_nat n @
     ascii '' belge bulundu. API key ayarlayarak tam yan'' @ [305] @ ascii ''t alabilirsiniz.''"

definition apology :: "ustr \<Rightarrow> ustr" where
  "apology msg =
     [220] @ ascii ''zg'' @ [252] @ ascii ''n'' @ [252] @ ascii ''m, sorunuzu yan'' @ [305] @
     ascii ''tlayamad'' @ [305] @ ascii ''m. Hata: '' @ msg"

text \<open>The body of the \<open>try\<close> block, after the retriever's \<open>top_k\<close> has been set.\<close>

definition query_body :: "rag_pipeline \<Rightarrow> ustr \<Rightarrow> int \<Rightarrow> py_exception + (ustr \<times> resval) list" where
  "query_body p question top_k =
     (case pipeline_run p question top_k of
        Inl e \<Rightarrow> Inl e
      | Inr result \<Rightarrow>
          let documents = (case result of None \<Rightarrow> [] | Some ds \<Rightarrow> ds);
              retrieved_docs = format_documents documents
          in (case model p of
                Some generate_text \<Rightarrow>
                  (let context_text = join [10, 10] (map content documents)
                   in case generate_text (prompt context_text question) of
                        Inl e \<Rightarrow> Inl e
                      | Inr answer \<Rightarrow>
                          Inr [(ascii ''answer'', RStr answer),
                               (ascii ''documents'', RDocs retrieved_docs),
                               (ascii ''query'', RStr question)])
              | None \<Rightarrow>
                  Inr [(ascii ''answer'', RStr (no_key_answer (length retrieved_docs))),
                       (ascii ''documents'', RDocs retrieved_docs),
                       (ascii ''query'', RStr question)]))"

text \<open>The line that the handler prints: \<open>f"Error in RAG pipeline query: {e}"\<close>.\<close>

definition error_line :: "ustr \<Rightarrow> ustr" where
  "error_line msg = ascii ''Error in RAG pipeline query: '' @ msg"

text \<open>
  \<open>query\<close>: its outcome and the pipeline object afterwards. The outcome is \<open>Inr\<close> the
  dictionary returned, or \<open>Inl\<close> the exception that leaves the function. The handler
  catches instances of \<open>Exception\<close> only, and it prints before it returns: \<open>py_print\<close> is
  the built-in \<open>print\<close> on the standard output of the process, \<open>None\<close> when the line is
  written and \<open>Some e\<close> when writing it raises \<open>e\<close> (a \<open>UnicodeEncodeError\<close> where the output
  encoding lacks a character of the line). An exception raised inside the handler leaves
  the function.
\<close>

definition query ::
  "(ustr \<Rightarrow> py_exception option) \<Rightarrow> rag_pipeline \<Rightarrow> ustr \<Rightarrow> int \<Rightarrow>
     (py_exception + (ustr \<times> resval) list) \<times> rag_pipeline" where
  "query py_print p question top_k =
     (let p' = (if retriever_top_k p \<noteq> top_k then p\<lparr>retriever_top_k := top_k\<rparr> else p)
      in (case query_body p' question top_k of
            Inr r \<Rightarrow> Inr r
          | Inl (PyBaseException msg) \<Rightarrow> Inl (PyBaseException msg)
          | Inl (PyException msg) \<Rightarrow>
              (case py_print (error_line msg) of
                 Some e \<Rightarrow> Inl e
               | None \<Rightarrow>
                   Inr [(ascii ''answer'', RStr (apology msg)),
                        (ascii ''documents'', RDocs []),
                        (ascii ''query'', RStr question)]),
          p'))"

section \<open>Facts about searches, slices and the rounded product\<close>


lemma rfind_less: "rfind s c < int (length s)"
  by (induction s) (auto simp: Let_def)

lemma rfind_notin: "c \<notin> set s \<Longrightarrow> rfind s c = - 1"
  by (induction s) (auto simp: Let_def)



lemma length_slice_le: "0 \<le> n \<Longrightarrow> int (length (slice s i (i + n))) \<le> n"
  by (auto simp: slice_def adjust_index_def Let_def)

lemma slice_nonneg:
  "0 \<le> i \<Longrightarrow> 0 \<le> j \<Longrightarrow> slice s i j = take (nat j - nat i) (drop (nat i) s)"
  by (auto simp: slice_def adjust_index_def Let_def)

lemma bit_length_bound: "n < 2 ^ bit_length n"
proof (induction n rule: bit_length.induct)
  case (1 n)
  show ?case
  proof (cases "n = 0")
    case True
    then show ?thesis by (simp add: bit_length.simps)
  next
    case False
    with "1.IH" have "n div 2 < 2 ^ bit_length (n div 2)" by simp
    then have "n < 2 * 2 ^ bit_length (n div 2)" by linarith
    with False show ?thesis by (subst bit_length.simps) simp
  qed
qed

lemma bit_length_lower: "0 < n \<Longrightarrow> 2 ^ (bit_length n - 1) \<le> n"
proof (induction n rule: bit_length.induct)
  case (1 n)
  show ?case
  proof (cases "n div 2 = 0")
    case True
    with "1.prems" have "n = 1" by (simp add: div_eq_0_iff) 
    then show ?thesis by (simp add: bit_length.simps)
  next
    case False
    with "1.IH" "1.prems" have "2 ^ (bit_length (n div 2) - 1) \<le> n div 2" by simp
    moreover have "0 < bit_length (n div 2)" using False by (subst bit_length.simps) simp
    ultimately have "2 ^ bit_length (n div 2) \<le> 2 * (n div 2)"
      by (cases "bit_length (n div 2)") simp_all
    then have "2 ^ bit_length (n div 2) \<le> n" by linarith
    with "1.prems" show ?thesis by (subst bit_length.simps) simp
  qed
qed

lemma round53_le: "round53 n \<le> 2 * n"
proof (cases "bit_length n \<le> 53")
  case True
  then show ?thesis by (simp add: round53_def Let_def)
next
  case False
  define s where "s = bit_length n - 53"
  have n0: "0 < n" using False by (cases "n = 0") (simp_all add: bit_length.simps)
  have "s \<le> bit_length n - 1" by (simp add: s_def)
  then have "(2::nat) ^ s \<le> 2 ^ (bit_length n - 1)" by (rule power_increasing) simp
  with bit_length_lower [OF n0] have s_le: "2 ^ s \<le> n" by linarith
  have "(n div 2 ^ s + 1) * 2 ^ s = (n div 2 ^ s) * 2 ^ s + 2 ^ s" by (simp add: algebra_simps)
  also have "\<dots> \<le> n + 2 ^ s" by (simp add: div_times_less_eq_dividend)
  finally have up: "(n div 2 ^ s + 1) * 2 ^ s \<le> 2 * n" using s_le by linarith
  have "(n div 2 ^ s) * 2 ^ s \<le> (n div 2 ^ s + 1) * 2 ^ s" by simp
  with up False show ?thesis
    by (auto simp: round53_def Let_def s_def [symmetric])
qed

lemma times_0_7_nonneg:
  assumes "0 \<le> n" "n < 2 ^ 1023"
  shows "\<exists>t. times_0_7 n = Inr t \<and> 0 \<le> t"
proof -
  have "nat \<bar>n\<bar> < 2 ^ 1023" using assms by (simp add: nat_less_iff)
  with round53_le [of "nat \<bar>n\<bar>"] have lt: "\<not> 2 ^ 1024 \<le> round53 (nat \<bar>n\<bar>)" by simp
  define t :: rat where
    "t = of_int (sgn n) * of_nat (round53 (round53 (nat \<bar>n\<bar>) * 6305039478318694)) / 2 ^ 53"
  have "times_0_7 n = Inr t"
    unfolding times_0_7_def Let_def t_def by (rule if_not_P [OF lt])
  moreover have "0 \<le> rat_of_int (sgn n)" using assms(1) by (simp add: sgn_if)
  then have "0 \<le> t" unfolding t_def by (intro divide_nonneg_nonneg mult_nonneg_nonneg) simp_all
  ultimately show ?thesis by blast
qed

section \<open>Facts about the loop of chunk_text\<close>

lemma chunk_step_end_le:
  assumes "0 \<le> cs" "cs < 2 ^ 1023"
  shows "\<exists>chunk e. chunk_step text cs start = Inr (chunk, e) \<and> e \<le> start + cs"
proof -
  from times_0_7_nonneg [OF assms] obtain t where t: "times_0_7 cs = Inr t" by blast
  define chunk where "chunk = slice text start (start + cs)"
  have len: "int (length chunk) \<le> cs" unfolding chunk_def by (rule length_slice_le [OF assms(1)])
  have "max (max (rfind chunk 46) (rfind chunk 63)) (rfind chunk 33) < int (length chunk)"
    using rfind_less [of chunk 46] rfind_less [of chunk 63] rfind_less [of chunk 33] by simp
  with len have "start + max (max (rfind chunk 46) (rfind chunk 63)) (rfind chunk 33) + 1 \<le> start + cs"
    by linarith
  then show ?thesis
    by (simp add: chunk_step_def Let_def t chunk_def [symmetric])
qed

lemma chunk_loop_diverges:
  assumes step: "\<And>s. I s \<Longrightarrow> s < int (length text) \<and>
      (\<exists>chunk e. chunk_step text cs s = Inr (chunk, e) \<and> e - ov < int (length text) \<and> I (e - ov))"
    and init: "I start"
  shows "chunk_loop text cs ov start chunks = None"
proof (rule ccontr)
  assume "chunk_loop text cs ov start chunks \<noteq> None"
  then obtain r where r: "chunk_loop text cs ov start chunks = Some r" by blast
  have "text = text \<and> cs = cs \<and> ov = ov \<longrightarrow> \<not> I start"
  proof (rule chunk_loop.raw_induct
      [where P = "\<lambda>tx sz ovl s ch y. tx = text \<and> sz = cs \<and> ovl = ov \<longrightarrow> \<not> I s", OF _ r])
    fix f tx sz ovl s ch y
    assume IH: "\<And>tx sz ovl s ch y. f tx sz ovl s ch = Some y \<Longrightarrow>
        tx = text \<and> sz = cs \<and> ovl = ov \<longrightarrow> \<not> I s"
      and eq: "(if s < int (length tx)
          then case chunk_step tx sz s of Inl e \<Rightarrow> Some (Inl e)
               | Inr (chunk, end) \<Rightarrow>
                   let chunks' = ch @ [strip chunk]; start' = end - ovl
                   in if int (length tx) \<le> start' then Some (Inr chunks')
                      else f tx sz ovl start' chunks'
          else Some (Inr ch)) = Some y"
    show "tx = text \<and> sz = cs \<and> ovl = ov \<longrightarrow> \<not> I s"
    proof (intro impI notI, elim conjE)
      assume a: "tx = text" "sz = cs" "ovl = ov" "I s"
      from step [OF a(4)] obtain chunk e where
        s: "s < int (length text)" "chunk_step text cs s = Inr (chunk, e)"
        "e - ov < int (length text)" "I (e - ov)" by blast
      with eq a have "f text cs ov (e - ov) (ch @ [strip chunk]) = Some y"
        by (simp add: Let_def)
      from IH [OF this] s(4) show False by simp
    qed
  qed
  with init show False by simp
qed

lemma chunk_loop_no_progress:
  assumes "0 \<le> cs" "cs \<le> ov" "cs < int (length text)" "length text < 2 ^ 63" "start \<le> 0"
  shows "chunk_loop text cs ov start chunks = None"
proof (rule chunk_loop_diverges [where I = "\<lambda>s. s \<le> 0"])
  fix s :: int
  assume s: "s \<le> 0"
  have "cs < 2 ^ 63" using assms(3,4) by simp
  also have "(2::int) ^ 63 < 2 ^ 1023" by simp
  finally have "cs < 2 ^ 1023" .
  from chunk_step_end_le [OF assms(1) this, of "text" s] obtain chunk e where
    "chunk_step text cs s = Inr (chunk, e)" "e \<le> s + cs" by blast
  moreover from this s assms have "e - ov \<le> 0" "s < int (length text)" by linarith+
  ultimately show "s < int (length text) \<and>
      (\<exists>chunk e. chunk_step text cs s = Inr (chunk, e) \<and> e - ov < int (length text) \<and> e - ov \<le> 0)"
    using assms by auto
next
  show "start \<le> 0" by fact
qed

lemma slice_slice_prefix:
  assumes "0 \<le> i" "0 \<le> j" "0 \<le> k" "k \<le> int (length (slice s i j))"
  shows "slice (slice s i j) 0 k = slice s i (i + k)"
proof -
  have a: "slice s i j = take (nat j - nat i) (drop (nat i) s)"
    using assms by (simp add: slice_nonneg)
  have b: "slice s i (i + k) = take (nat k) (drop (nat i) s)"
    using assms by (simp add: slice_nonneg nat_add_distrib)
  have "int (length (slice s i j)) \<le> int (nat j - nat i)" unfolding a by simp
  with assms(3,4) have "nat k \<le> nat j - nat i" by linarith
  then have "take (nat k) (take (nat j - nat i) (drop (nat i) s)) = take (nat k) (drop (nat i) s)"
    by (simp add: min_def)
  moreover have "slice (slice s i j) 0 k = take (nat k) (slice s i j)"
    using assms(3) by (simp add: slice_nonneg)
  ultimately show ?thesis by (simp add: a b)
qed

lemma chunk_step_progress:
  assumes thr: "times_0_7 cs = Inr thr" and ov1: "of_int ov \<le> thr + 1"
    and ov: "0 < ov" "ov < cs" and st: "0 \<le> start"
  shows "\<exists>e. chunk_step text cs start = Inr (slice text start e, e) \<and> start + ov < e \<and> e \<le> start + cs"
proof -
  define chunk where "chunk = slice text start (start + cs)"
  define k where "k = max (max (rfind chunk 46) (rfind chunk 63)) (rfind chunk 33)"
  have len: "int (length chunk) \<le> cs" unfolding chunk_def using ov by (intro length_slice_le) simp
  have klt: "k < int (length chunk)"
    using rfind_less [of chunk 46] rfind_less [of chunk 63] rfind_less [of chunk 33]
    by (simp add: k_def)
  show ?thesis
  proof (cases "start + cs < int (length text) \<and> thr < of_int k")
    case True
    then have "rat_of_int ov - 1 < rat_of_int k" using ov1 by linarith
    then have "rat_of_int (ov - 1) < rat_of_int k" by simp
    then have kov: "ov - 1 < k" by (simp only: of_int_less_iff)
    then have k0: "0 \<le> k + 1" using ov by linarith
    have "slice chunk 0 (k + 1) = slice text start (start + (k + 1))"
      unfolding chunk_def using st ov klt k0
      by (intro slice_slice_prefix) (simp_all add: chunk_def)
    moreover have "chunk_step text cs start = Inr (slice chunk 0 (k + 1), start + k + 1)"
      using True by (simp add: chunk_step_def Let_def thr chunk_def [symmetric] k_def [symmetric])
    ultimately have "chunk_step text cs start = Inr (slice text start (start + k + 1), start + k + 1)"
      by (simp add: add.assoc)
    moreover have "start + ov < start + k + 1" "start + k + 1 \<le> start + cs"
      using kov klt len by linarith+
    ultimately show ?thesis by blast
  next
    case False
    then have "chunk_step text cs start = Inr (slice text start (start + cs), start + cs)"
      by (auto simp: chunk_step_def Let_def thr chunk_def [symmetric] k_def [symmetric])
    with ov show ?thesis by auto
  qed
qed

lemma chunk_loop_terminates:
  assumes thr: "times_0_7 cs = Inr thr" and ov1: "of_int ov \<le> thr + 1"
    and ov: "0 < ov" "ov < cs"
  shows "0 \<le> start \<Longrightarrow> start < int (length text) \<Longrightarrow>
    \<exists>ws. chunk_loop text cs ov start chunks =
            Some (Inr (chunks @ map (\<lambda>(i, j). strip (slice text i j)) ws)) \<and>
         ws \<noteq> [] \<and> fst (hd ws) = start \<and>
         (\<forall>(i, j) \<in> set ws. start \<le> i \<and> i < int (length text) \<and> i + ov < j \<and> j \<le> i + cs) \<and>
         successively (\<lambda>a b. fst b = snd a - ov) ws \<and>
         int (length text) \<le> snd (last ws) - ov \<and>
         sorted_wrt (\<lambda>a b. fst a < fst b) ws"
proof (induction "nat (int (length text) - start)" arbitrary: start chunks rule: less_induct)
  case less
  from chunk_step_progress [OF thr ov1 ov less.prems(1)] obtain e where
    e: "chunk_step text cs start = Inr (slice text start e, e)" "start + ov < e" "e \<le> start + cs"
    by blast
  let ?c = "strip (slice text start e)"
  show ?case
  proof (cases "int (length text) \<le> e - ov")
    case True
    then have "chunk_loop text cs ov start chunks = Some (Inr (chunks @ [?c]))"
      using less.prems e by (subst chunk_loop.simps) (simp add: Let_def)
    then show ?thesis
      using e True less.prems by (intro exI [of _ "[(start, e)]"]) simp
  next
    case False
    have m: "nat (int (length text) - (e - ov)) < nat (int (length text) - start)"
      using False e(2) by linarith
    have p: "0 \<le> e - ov" "e - ov < int (length text)" using False e(2) less.prems by linarith+
    from less.hyps [OF m p, of "chunks @ [?c]"] obtain ws where
      ws: "chunk_loop text cs ov (e - ov) (chunks @ [?c]) =
             Some (Inr ((chunks @ [?c]) @ map (\<lambda>(i, j). strip (slice text i j)) ws))"
          "ws \<noteq> []" "fst (hd ws) = e - ov"
          "\<forall>(i, j) \<in> set ws. e - ov \<le> i \<and> i < int (length text) \<and> i + ov < j \<and> j \<le> i + cs"
          "successively (\<lambda>a b. fst b = snd a - ov) ws"
          "int (length text) \<le> snd (last ws) - ov"
          "sorted_wrt (\<lambda>a b. fst a < fst b) ws" by blast
    have "chunk_loop text cs ov start chunks = chunk_loop text cs ov (e - ov) (chunks @ [?c])"
      using less.prems e False by (subst chunk_loop.simps) (simp add: Let_def)
    with ws(1) have
      "chunk_loop text cs ov start chunks =
         Some (Inr (chunks @ map (\<lambda>(i, j). strip (slice text i j)) ((start, e) # ws)))"
      by simp
    moreover have "\<forall>(i, j) \<in> set ((start, e) # ws).
        start \<le> i \<and> i < int (length text) \<and> i + ov < j \<and> j \<le> i + cs"
      using ws(4) e(2,3) ov(1) less.prems by auto
    moreover have "successively (\<lambda>a b. fst b = snd a - ov) ((start, e) # ws)"
      using ws(2,3,5) by (simp add: successively_Cons)
    moreover have "int (length text) \<le> snd (last ((start, e) # ws)) - ov"
      using ws(2,6) by simp
    moreover have "sorted_wrt (\<lambda>a b. fst a < fst b) ((start, e) # ws)"
      using ws(4,7) e(2) ov(1) by auto
    ultimately show ?thesis by (intro exI [of _ "(start, e) # ws"]) simp
  qed
qed





lemma times_0_7_10: "times_0_7 10 = Inr 7"
  by (simp add: times_0_7_def round53_def bit_length.simps Let_def)

lemma times_0_7_500: "times_0_7 500 = Inr 350"
  by (simp add: times_0_7_def round53_def bit_length.simps Let_def)

text \<open>
  The product is rounded: for 90 it is the double just below 63, so that an index of 63,
  which is 70% of 90, exceeds it.
\<close>

lemma times_0_7_90: "times_0_7 90 = Inr (567453553048682432 / 9007199254740992)"
  by (simp add: times_0_7_def round53_def bit_length.simps Let_def)

lemma rfind_append_Cons: "c \<notin> set ys \<Longrightarrow> rfind (xs @ c # ys) c = int (length xs)"
  by (induction xs) (simp_all add: rfind_notin Let_def)

lemma chunk_step_window_90:
  "chunk_step (replicate 63 97 @ 46 # replicate 100 97) 90 0 = Inr (replicate 63 97 @ [46], 64)"
proof -
  have w: "slice (replicate 63 97 @ 46 # replicate 100 97) 0 90 = replicate 63 97 @ 46 # replicate 26 (97::nat)"
    by (simp add: slice_nonneg)
  have "rfind (replicate 63 97 @ 46 # replicate 26 97) 46 = 63"
    using rfind_append_Cons [of 46 "replicate 26 97" "replicate 63 97"] by simp
  moreover have "rfind (replicate 63 97 @ 46 # replicate 26 97) 63 = - 1"
    "rfind (replicate 63 97 @ 46 # replicate 26 97) 33 = - 1"
    by (simp_all add: rfind_notin)
  ultimately show ?thesis
    by (simp add: chunk_step_def Let_def w times_0_7_90 slice_nonneg)
qed

lemma chunk_text_returns:
  assumes "0 < overlap" "overlap < chunk_size" "times_0_7 chunk_size = Inr threshold"
    "of_int overlap \<le> threshold + 1"
  shows "\<exists>chunks. chunk_text text chunk_size overlap = Some (Inr chunks) \<and> chunks \<noteq> [] \<and>
    (if int (length text) \<le> chunk_size then chunks = [text]
     else
       (\<exists>ws. chunks = map (\<lambda>(i, j). strip (slice text i j)) ws \<and> ws \<noteq> [] \<and> fst (hd ws) = 0 \<and>
          (\<forall>(i, j) \<in> set ws.
             0 \<le> i \<and> i < int (length text) \<and> i + overlap < j \<and> j \<le> i + chunk_size) \<and>
          successively (\<lambda>a b. fst b = snd a - overlap) ws \<and>
          int (length text) \<le> snd (last ws) - overlap \<and>
          sorted_wrt (\<lambda>a b. fst a < fst b) ws))"
proof (cases "int (length text) \<le> chunk_size")
  case True
  then show ?thesis by (simp add: chunk_text_def)
next
  case False
  then have "(0::int) < int (length text)" using assms(1,2) by linarith
  from chunk_loop_terminates [OF assms(3,4,1,2) order_refl this, of "[]"] obtain ws where
    ws: "chunk_loop text chunk_size overlap 0 [] =
           Some (Inr (map (\<lambda>(i, j). strip (slice text i j)) ws))"
        "ws \<noteq> []" "fst (hd ws) = 0"
        "\<forall>(i, j) \<in> set ws.
           0 \<le> i \<and> i < int (length text) \<and> i + overlap < j \<and> j \<le> i + chunk_size"
        "successively (\<lambda>a b. fst b = snd a - overlap) ws"
        "int (length text) \<le> snd (last ws) - overlap"
        "sorted_wrt (\<lambda>a b. fst a < fst b) ws" by auto
  let ?chunks = "map (\<lambda>(i, j). strip (slice text i j)) ws"
  have "chunk_text text chunk_size overlap = Some (Inr ?chunks)"
    using False ws(1) by (simp add: chunk_text_def)
  moreover have "?chunks \<noteq> []" using ws(2) by simp
  ultimately show ?thesis using False ws(2-7) by (intro exI [of _ ?chunks]) auto
qed

section \<open>Facts about create_documents\<close>

lemma length_strip_le: "length (strip s) \<le> length s"
proof -
  have "length (strip s) \<le> length (dropWhile is_space s)"
    unfolding strip_def using length_dropWhile_le [of is_space "rev (dropWhile is_space s)"] by simp
  also have "\<dots> \<le> length s" by (rule length_dropWhile_le)
  finally show ?thesis .
qed

lemma sub_ws_runs_no_space: "\<forall>c \<in> set s. \<not> is_space c \<Longrightarrow> sub_ws_runs s = s"
  by (induction s) auto

lemma preprocess_text_replicate_a: "preprocess_text latin_isalnum (replicate n 97) = replicate n 97"
proof -
  have "\<not> is_space 97" by (simp add: is_space_def)
  then have "sub_ws_runs (replicate n 97) = replicate n 97"
    by (intro sub_ws_runs_no_space) simp
  moreover have "keep_char latin_isalnum 97"
    by (simp add: keep_char_def is_word_def latin_isalnum_def)
  then have "filter (keep_char latin_isalnum) (replicate n 97) = replicate n 97" by simp
  moreover have "strip (replicate n 97) = replicate n 97"
    by (simp add: strip_def dropWhile_replicate is_space_def)
  ultimately show ?thesis by (simp add: preprocess_text_def)
qed

lemma chunk_step_replicate_a:
  "0 \<le> start \<Longrightarrow> chunk_step (replicate n 97) 500 start =
     Inr (slice (replicate n 97) start (start + 500), start + 500)"
  by (simp add: chunk_step_def Let_def times_0_7_500 slice_nonneg rfind_notin)

lemma chunk_text_910:
  "chunk_text (replicate 910 97) 500 50 =
     Some (Inr [replicate 500 97, replicate 460 97, replicate 10 97])"
proof -
  have s: "strip (replicate n 97) = replicate n 97" for n
    by (simp add: strip_def dropWhile_replicate is_space_def)
  have "chunk_loop (replicate 910 97) 500 50 900 [replicate 500 97, replicate 460 97] =
      Some (Inr [replicate 500 97, replicate 460 97, replicate 10 97])"
    by (subst chunk_loop.simps) (simp add: chunk_step_replicate_a slice_nonneg s)
  moreover have "chunk_loop (replicate 910 97) 500 50 450 [replicate 500 97] =
      chunk_loop (replicate 910 97) 500 50 900 [replicate 500 97, replicate 460 97]"
    by (subst chunk_loop.simps) (simp add: chunk_step_replicate_a slice_nonneg s)
  moreover have "chunk_loop (replicate 910 97) 500 50 0 [] =
      chunk_loop (replicate 910 97) 500 50 450 [replicate 500 97]"
    by (subst chunk_loop.simps) (simp add: chunk_step_replicate_a slice_nonneg s)
  ultimately show ?thesis by (simp add: chunk_text_def)
qed

lemma chunk_text_default_returns: "\<exists>chunks. chunk_text t 500 50 = Some (Inr chunks)"
proof -
  have "(0::int) < 50" "(50::int) < 500" "rat_of_int 50 \<le> 350 + 1" by simp_all
  from chunk_text_returns [OF this(1,2) times_0_7_500 this(3), of t] show ?thesis by blast
qed

lemma item_documents_str:
  assumes "resolve_text item = PStr s" "s \<noteq> []"
    "chunk_text (preprocess_text isalnum s) 500 50 = Some (Inr chunks)"
  shows "item_documents isalnum item = Some (Inr (chunk_documents item chunks))"
  using assms by (simp add: item_documents_def Let_def)

lemma item_documents_falsy:
  "\<not> truthy (resolve_text item) \<Longrightarrow> item_documents isalnum item = Some (Inr [])"
  by (simp add: item_documents_def Let_def)

lemma enumerate_nth: "enumerate 0 xs = map (\<lambda>i. (i, xs ! i)) [0..<length xs]"
  by (rule nth_equalityI) (simp_all add: nth_enumerate_eq)

lemma chunk_documents_map:
  "chunk_documents item chunks =
     map (\<lambda>i. \<lparr>content = chunks ! i,
               meta = [(ascii ''title'', dict_get item (ascii ''title'') (PStr (ascii ''Unknown''))),
                       (ascii ''url'', dict_get item (ascii ''url'') (PStr [])),
                       (ascii ''chunk_id'', PInt (int i)),
                       (ascii ''total_chunks'', PInt (int (length chunks))),
                       (ascii ''source'', PStr (ascii ''wikipedia''))],
               score = PNone\<rparr>)
         (filter (\<lambda>i. 50 \<le> length (strip (chunks ! i))) [0..<length chunks])"
  by (simp add: chunk_documents_def enumerate_nth filter_map comp_def not_less)

lemma chunk_documents_fields:
  "map (\<lambda>d. (content d, dict_get (meta d) (ascii ''chunk_id'') PNone,
             dict_get (meta d) (ascii ''total_chunks'') PNone))
       (chunk_documents item chunks) =
   map (\<lambda>i. (chunks ! i, PInt (int i), PInt (int (length chunks))))
       (filter (\<lambda>i. 50 \<le> length (strip (chunks ! i))) [0..<length chunks])"
  by (simp add: chunk_documents_map comp_def dict_get_def ascii_def)

lemma chunk_documents_min_length:
  "d \<in> set (chunk_documents item chunks) \<Longrightarrow> 50 \<le> length (strip (content d))"
  by (auto simp: chunk_documents_map)

lemma item_documents_min_length:
  assumes "item_documents isalnum item = Some (Inr docs)" "d \<in> set docs"
  shows "50 \<le> length (strip (content d))"
proof (cases "truthy (resolve_text item)")
  case False
  with assms show ?thesis by (simp add: item_documents_falsy)
next
  case True
  with assms obtain s chunks where "docs = chunk_documents item chunks"
    by (auto simp: item_documents_def Let_def split: pyval.splits option.splits sum.splits)
  with assms(2) show ?thesis by (simp add: chunk_documents_min_length)
qed

lemma create_documents_loop_min_length:
  assumes "create_documents_loop isalnum data acc = Some (Inr docs)"
    "\<forall>d \<in> set acc. 50 \<le> length (strip (content d))"
  shows "\<forall>d \<in> set docs. 50 \<le> length (strip (content d))"
  using assms
proof (induction data arbitrary: acc)
  case Nil
  then show ?case by simp
next
  case (Cons item data)
  from Cons.prems(1) obtain ds where
    ds: "item_documents isalnum item = Some (Inr ds)"
    "create_documents_loop isalnum data (acc @ ds) = Some (Inr docs)"
    by (auto split: option.splits sum.splits)
  have "\<forall>d \<in> set (acc @ ds). 50 \<le> length (strip (content d))"
    using Cons.prems(2) item_documents_min_length [OF ds(1)] by auto
  from Cons.IH [OF ds(2) this] show ?case .
qed

lemma item_documents_short:
  assumes "resolve_text item = PStr s" "length (preprocess_text isalnum s) < 50"
  shows "item_documents isalnum item = Some (Inr [])"
proof (cases "s = []")
  case True
  with assms(1) show ?thesis by (simp add: item_documents_falsy)
next
  case False
  let ?t = "preprocess_text isalnum s"
  have "chunk_text ?t 500 50 = Some (Inr [?t])" using assms(2) by (simp add: chunk_text_def)
  from item_documents_str [OF assms(1) False this]
  have "item_documents isalnum item = Some (Inr (chunk_documents item [?t]))" .
  moreover have "length (strip ?t) < 50" using length_strip_le [of ?t] assms(2) by linarith
  then have "chunk_documents item [?t] = []" by (simp add: chunk_documents_def)
  ultimately show ?thesis by simp
qed

lemma item_documents_returns:
  "\<exists>r. item_documents isalnum item = Some r"
proof (cases "resolve_text item")
  case (PStr s)
  from chunk_text_default_returns [of "preprocess_text isalnum s"] obtain chunks where
    "chunk_text (preprocess_text isalnum s) 500 50 = Some (Inr chunks)" by blast
  with PStr show ?thesis by (simp add: item_documents_def Let_def)
qed (simp_all add: item_documents_def Let_def)

lemma create_documents_loop_returns:
  "\<exists>r. create_documents_loop isalnum data acc = Some r"
proof (induction data arbitrary: acc)
  case Nil
  then show ?case by simp
next
  case (Cons item data)
  from item_documents_returns [of isalnum item] obtain r where
    r: "item_documents isalnum item = Some r" by blast
  show ?case
  proof (cases r)
    case (Inl e)
    with r show ?thesis by simp
  next
    case (Inr ds)
    with r Cons.IH [of "acc @ ds"] show ?thesis by simp
  qed
qed

lemma strip_replicate_a: "strip (replicate n 97) = replicate n 97"
  by (simp add: strip_def dropWhile_replicate is_space_def)

lemma item_documents_910:
  "item_documents latin_isalnum [(ascii ''text'', PStr (replicate 910 97))] =
     Some (Inr [\<lparr>content = replicate 500 97,
                  meta = [(ascii ''title'', PStr (ascii ''Unknown'')), (ascii ''url'', PStr []),
                          (ascii ''chunk_id'', PInt 0), (ascii ''total_chunks'', PInt 3),
                          (ascii ''source'', PStr (ascii ''wikipedia''))],
                  score = PNone\<rparr>,
                \<lparr>content = replicate 460 97,
                  meta = [(ascii ''title'', PStr (ascii ''Unknown'')), (ascii ''url'', PStr []),
                          (ascii ''chunk_id'', PInt 1), (ascii ''total_chunks'', PInt 3),
                          (ascii ''source'', PStr (ascii ''wikipedia''))],
                  score = PNone\<rparr>])"
proof -
  have r: "resolve_text [(ascii ''text'', PStr (replicate 910 97))] = PStr (replicate 910 97)"
    by (simp add: resolve_text_def)
  have n: "replicate 910 (97::nat) \<noteq> []" by simp
  have c: "chunk_text (preprocess_text latin_isalnum (replicate 910 97)) 500 50 =
      Some (Inr [replicate 500 97, replicate 460 97, replicate 10 97])"
    by (simp only: preprocess_text_replicate_a chunk_text_910)
  show ?thesis
    unfolding item_documents_str [OF r n c]
    by (simp add: chunk_documents_def enumerate_eq_zip upt_rec strip_replicate_a dict_get_def ascii_def)
qed

lemma create_documents_single:
  "item_documents isalnum item = Some (Inr docs) \<Longrightarrow> create_documents isalnum [item] = Some (Inr docs)"
  by (simp add: create_documents_def)

lemma item_documents_60:
  "item_documents latin_isalnum [(ascii ''content'', PStr (replicate 60 97))] =
     Some (Inr [\<lparr>content = replicate 60 97,
                  meta = [(ascii ''title'', PStr (ascii ''Unknown'')), (ascii ''url'', PStr []),
                          (ascii ''chunk_id'', PInt 0), (ascii ''total_chunks'', PInt 1),
                          (ascii ''source'', PStr (ascii ''wikipedia''))],
                  score = PNone\<rparr>])"
proof -
  have r: "resolve_text [(ascii ''content'', PStr (replicate 60 97))] = PStr (replicate 60 97)"
    by (simp add: resolve_text_def ascii_def)
  have n: "replicate 60 (97::nat) \<noteq> []" by simp
  have c: "chunk_text (preprocess_text latin_isalnum (replicate 60 97)) 500 50 =
      Some (Inr [replicate 60 97])"
    by (simp add: preprocess_text_replicate_a chunk_text_def)
  show ?thesis
    unfolding item_documents_str [OF r n c]
    by (simp add: chunk_documents_def strip_replicate_a dict_get_def ascii_def)
qed

lemma sub_ws_runs_append_no_space:
  "\<forall>c \<in> set xs. \<not> is_space c \<Longrightarrow> sub_ws_runs (xs @ ys) = xs @ sub_ws_runs ys"
  by (induction xs) auto

lemma sub_ws_runs_space_at:
  "sub_ws_runs (concat (replicate n [32, 64]) @ ys) = concat (replicate n [32, 64]) @ sub_ws_runs ys"
  by (induction n) (simp_all add: is_space_def)

lemma filter_space_at:
  "filter (keep_char latin_isalnum) (concat (replicate n [32, 64])) = replicate n 32"
  by (induction n) (simp_all add: keep_char_def is_word_def latin_isalnum_def is_space_def)

lemma dropWhile_spaces: "dropWhile is_space (replicate m 32 @ ys) = dropWhile is_space ys"
  by (induction m) (simp_all add: is_space_def)

lemma strip_padded:
  assumes "\<not> is_space c"
  shows "strip (replicate m 32 @ replicate n c @ replicate k 32) = replicate n c"
proof (cases "n = 0")
  case True
  have "dropWhile is_space (replicate k 32) = []" by (simp add: dropWhile_replicate is_space_def)
  with True show ?thesis by (simp add: strip_def dropWhile_spaces)
next
  case False
  then obtain n' where n: "n = Suc n'" by (cases n) simp_all
  have "dropWhile is_space (replicate n c @ replicate k 32) = replicate n c @ replicate k 32"
    using assms by (simp add: n)
  moreover have "dropWhile is_space (replicate k 32 @ replicate n c) = replicate n c"
    using assms by (simp add: dropWhile_spaces dropWhile_replicate)
  ultimately show ?thesis by (simp add: strip_def dropWhile_spaces)
qed

lemma set_slice_subset: "set (slice t i j) \<subseteq> set t"
  unfolding slice_def Let_def by (meson in_set_takeD in_set_dropD subsetI)

lemma chunk_step_no_marks:
  assumes "46 \<notin> set t" "63 \<notin> set t" "33 \<notin> set t" "times_0_7 cs = Inr thr" "0 \<le> thr"
  shows "chunk_step t cs start = Inr (slice t start (start + cs), start + cs)"
proof -
  have "rfind (slice t start (start + cs)) c = - 1" if "c \<notin> set t" for c
    using that set_slice_subset [of t start "start + cs"] by (intro rfind_notin) blast
  with assms show ?thesis by (simp add: chunk_step_def Let_def)
qed

lemma preprocess_text_gap:
  "preprocess_text latin_isalnum
     (replicate 450 97 @ concat (replicate 500 [32, 64]) @ replicate 100 98) =
   replicate 450 97 @ replicate 500 32 @ replicate 100 98"
proof -
  have a: "\<forall>c \<in> set (replicate 450 (97::nat)). \<not> is_space c" by (simp add: is_space_def)
  have b: "\<forall>c \<in> set (replicate 100 (98::nat)). \<not> is_space c" by (simp add: is_space_def)
  have "sub_ws_runs (replicate 450 97 @ concat (replicate 500 [32, 64]) @ replicate 100 98) =
      replicate 450 97 @ concat (replicate 500 [32, 64]) @ replicate 100 98"
    by (simp only: sub_ws_runs_append_no_space [OF a] sub_ws_runs_space_at
        sub_ws_runs_no_space [OF b])
  moreover have "filter (keep_char latin_isalnum) (replicate 450 97) = replicate 450 97"
    "filter (keep_char latin_isalnum) (replicate 100 98) = replicate 100 98"
    by (simp_all add: keep_char_def is_word_def latin_isalnum_def)
  moreover have "strip (replicate 450 97 @ replicate 500 32 @ replicate 100 98) =
      replicate 450 97 @ replicate 500 32 @ replicate 100 98"
    by (simp add: strip_def dropWhile_append is_space_def dropWhile_replicate)
  ultimately show ?thesis by (simp add: preprocess_text_def filter_space_at)
qed

lemma chunk_text_gap:
  "chunk_text (replicate 450 97 @ replicate 500 32 @ replicate 100 98) 500 50 =
     Some (Inr [replicate 450 97, [], replicate 100 98])"
proof -
  let ?t = "replicate 450 97 @ replicate 500 32 @ replicate 100 (98::nat)"
  have step: "chunk_step ?t 500 start = Inr (slice ?t start (start + 500), start + 500)" for start
    by (rule chunk_step_no_marks [OF _ _ _ times_0_7_500]) simp_all
  have s0: "strip (slice ?t 0 500) = replicate 450 97"
    using strip_padded [of 97 0 450 50] by (simp add: slice_nonneg is_space_def)
  have s1: "strip (slice ?t 450 950) = []"
    using strip_padded [of 97 500 0 0] by (simp add: slice_nonneg is_space_def)
  have s2: "strip (slice ?t 900 1400) = replicate 100 98"
    using strip_padded [of 98 50 100 0] by (simp add: slice_nonneg is_space_def)
  have "chunk_loop ?t 500 50 900 [replicate 450 97, []] =
      Some (Inr [replicate 450 97, [], replicate 100 98])"
    by (subst chunk_loop.simps) (simp add: step s2)
  moreover have "chunk_loop ?t 500 50 450 [replicate 450 97] =
      chunk_loop ?t 500 50 900 [replicate 450 97, []]"
    by (subst chunk_loop.simps) (simp add: step s1)
  moreover have "chunk_loop ?t 500 50 0 [] = chunk_loop ?t 500 50 450 [replicate 450 97]"
    by (subst chunk_loop.simps) (simp add: step s0)
  ultimately show ?thesis by (simp add: chunk_text_def)
qed

lemma item_documents_gap:
  "item_documents latin_isalnum
     [(ascii ''text'', PStr (replicate 450 97 @ concat (replicate 500 [32, 64]) @ replicate 100 98))] =
     Some (Inr [\<lparr>content = replicate 450 97,
                  meta = [(ascii ''title'', PStr (ascii ''Unknown'')), (ascii ''url'', PStr []),
                          (ascii ''chunk_id'', PInt 0), (ascii ''total_chunks'', PInt 3),
                          (ascii ''source'', PStr (ascii ''wikipedia''))],
                  score = PNone\<rparr>,
                \<lparr>content = replicate 100 98,
                  meta = [(ascii ''title'', PStr (ascii ''Unknown'')), (ascii ''url'', PStr []),
                          (ascii ''chunk_id'', PInt 2), (ascii ''total_chunks'', PInt 3),
                          (ascii ''source'', PStr (ascii ''wikipedia''))],
                  score = PNone\<rparr>])"
proof -
  let ?raw = "replicate 450 97 @ concat (replicate 500 [32, 64]) @ replicate 100 (98::nat)"
  have r: "resolve_text [(ascii ''text'', PStr ?raw)] = PStr ?raw" by (simp add: resolve_text_def)
  have n: "?raw \<noteq> []" by simp
  have c: "chunk_text (preprocess_text latin_isalnum ?raw) 500 50 =
      Some (Inr [replicate 450 97, [], replicate 100 98])"
    by (simp only: preprocess_text_gap chunk_text_gap)
  have s: "strip (replicate 450 97) = replicate 450 97" "strip [] = []"
    "strip (replicate 100 98) = replicate 100 98"
    by (simp_all add: strip_def dropWhile_replicate is_space_def)
  show ?thesis
    unfolding item_documents_str [OF r n c]
    by (simp add: chunk_documents_def enumerate_eq_zip upt_rec s dict_get_def ascii_def)
qed

section \<open>Facts about query\<close>

lemma query_body_top_k:
  "query_body (p\<lparr>retriever_top_k := k\<rparr>) question top_k = query_body p question top_k"
  by (simp add: query_body_def Let_def split: sum.split)

lemma query_body_generation:
  assumes "pipeline_run p question top_k = Inr result" "model p = Some generate_text"
    "generate_text (prompt (join [10, 10] (map content (case result of None \<Rightarrow> [] | Some ds \<Rightarrow> ds)))
       question) = Inl e"
  shows "query_body p question top_k = Inl e"
  using assms by (simp add: query_body_def Let_def)

lemma query_cases:
  "fst (query py_print p question top_k) =
     (case query_body p question top_k of
        Inr r \<Rightarrow> Inr r
      | Inl (PyBaseException msg) \<Rightarrow> Inl (PyBaseException msg)
      | Inl (PyException msg) \<Rightarrow>
          (case py_print (error_line msg) of
             Some e \<Rightarrow> Inl e
           | None \<Rightarrow>
               Inr [(ascii ''answer'', RStr (apology msg)), (ascii ''documents'', RDocs []),
                    (ascii ''query'', RStr question)]))"
  by (simp add: query_def Let_def query_body_top_k)

lemma query_body_shape:
  "query_body p question top_k = Inr r \<Longrightarrow>
     \<exists>answer docs. r = [(ascii ''answer'', RStr answer), (ascii ''documents'', RDocs docs),
                        (ascii ''query'', RStr question)]"
  by (auto simp: query_body_def Let_def split: sum.splits option.splits)

section \<open>Properties of preprocess_text\<close>

text \<open>
  C2. The claim is that normalising twice gives the same text as normalising once. The
  whitespace runs are collapsed before the disallowed characters are removed, so a
  removed character that stood between two spaces leaves the two spaces side by side:
  \<open>"a @ b"\<close> becomes \<open>"a  b"\<close>, and a second pass turns that into \<open>"a b"\<close>.
\<close>

theorem preprocess_text_not_idempotent:
  "preprocess_text latin_isalnum (ascii ''a @ b'') = ascii ''a  b'' \<and>
   preprocess_text latin_isalnum (preprocess_text latin_isalnum (ascii ''a @ b'')) = ascii ''a b''"
  by (simp add: preprocess_text_def ascii_def keep_char_def is_word_def latin_isalnum_def
      is_space_def strip_def)

section \<open>Properties of chunk_text\<close>

text \<open>
  C7, as the code has it. A text no longer than the window is returned as the only
  chunk, unchanged: the early return does not trim it.
\<close>

theorem chunk_text_short_returns_text:
  "int (length text) \<le> chunk_size \<Longrightarrow> chunk_text text chunk_size overlap = Some (Inr [text])"
  by (simp add: chunk_text_def)

theorem chunk_text_short_returns_text_witness:
  "int (length (ascii '' a '')) \<le> 500 \<and>
   chunk_text (ascii '' a '') 500 50 = Some (Inr [ascii '' a ''])"
  using chunk_text_short_returns_text [of "ascii '' a ''" 500 50]
  by (simp add: ascii_def)

text \<open>
  C7 as stated fails: the three-character text \<open>" a "\<close> is within the window and comes
  back with its surrounding spaces, not as \<open>["a"]\<close>.
\<close>

theorem chunk_text_short_not_trimmed:
  "int (length (ascii '' a '')) \<le> 500 \<and>
   chunk_text (ascii '' a '') 500 50 \<noteq> Some (Inr [strip (ascii '' a '')])"
  by (simp add: chunk_text_def ascii_def strip_def is_space_def)

text \<open>
  C3, as the code has it. \<open>chunk_text\<close> checks nothing about its configuration. With
  \<open>overlap \<ge> chunk_size \<ge> 0\<close> a text within the window is returned as one chunk, and a
  longer text (of any length a Python string can have) keeps the cursor at or below 0:
  the loop never ends and no exception is raised.
\<close>

theorem chunk_text_overlap_ge_window:
  assumes "0 \<le> chunk_size" "chunk_size \<le> overlap" "length text < 2 ^ 63"
  shows "chunk_text text chunk_size overlap =
    (if int (length text) \<le> chunk_size then Some (Inr [text]) else None)"
  using assms by (simp add: chunk_text_def chunk_loop_no_progress)

theorem chunk_text_overlap_ge_window_witness:
  "(0::int) \<le> 2 \<and> (2::int) \<le> 2 \<and> length (ascii ''abc'') < 2 ^ 63 \<and>
   chunk_text (ascii ''abc'') 2 2 = None"
  using chunk_text_overlap_ge_window [of 2 2 "ascii ''abc''"] by (simp add: ascii_def)

text \<open>
  C3 as stated fails: with overlap 5 and window 3 the call on \<open>"abcdef"\<close> never returns,
  and with overlap 7 and window 5 the call on \<open>"ab"\<close> returns a chunk; neither raises.
\<close>

theorem chunk_text_no_configuration_error:
  "(3::int) \<le> 5 \<and> chunk_text (ascii ''abcdef'') 3 5 = None \<and>
   (5::int) \<le> 7 \<and> chunk_text (ascii ''ab'') 5 7 = Some (Inr [ascii ''ab''])"
proof -
  have "chunk_loop (ascii ''abcdef'') 3 5 0 [] = None"
    by (rule chunk_loop_no_progress) (simp_all add: ascii_def)
  then show ?thesis by (simp add: chunk_text_def ascii_def)
qed

text \<open>
  C4, as the code has it. Let \<open>chunk_size > overlap > 0\<close> and let the overlap be at most
  \<open>chunk_size * 0.7 + 1\<close>, the product as the code computes it (so for 500 and 50).
  Then \<open>chunk_text\<close> returns. A text within the window comes back as the one chunk
  \<open>[text]\<close>. A longer text comes back as the trimmed forms of windows \<open>text[i:j]\<close>: the
  first starts at 0, each window is longer than the overlap and no longer than
  \<open>chunk_size\<close>, each next window starts \<open>overlap\<close> before the end of the one before, and
  the last one ends within \<open>overlap\<close> of the end of the text or beyond it. A chunk is the
  empty string only if the text is, or if its window is all whitespace.
\<close>

theorem chunk_text_terminates:
  assumes "0 < overlap" "overlap < chunk_size" "times_0_7 chunk_size = Inr threshold"
    "of_int overlap \<le> threshold + 1"
  shows "\<exists>chunks. chunk_text text chunk_size overlap = Some (Inr chunks) \<and> chunks \<noteq> [] \<and>
    (if int (length text) \<le> chunk_size then chunks = [text]
     else
       (\<exists>ws. chunks = map (\<lambda>(i, j). strip (slice text i j)) ws \<and> ws \<noteq> [] \<and> fst (hd ws) = 0 \<and>
          (\<forall>(i, j) \<in> set ws.
             0 \<le> i \<and> i < int (length text) \<and> i + overlap < j \<and> j \<le> i + chunk_size) \<and>
          successively (\<lambda>a b. fst b = snd a - overlap) ws \<and>
          int (length text) \<le> snd (last ws) - overlap \<and>
          sorted_wrt (\<lambda>a b. fst a < fst b) ws))"
  using assms by (rule chunk_text_returns)

theorem chunk_text_terminates_witness:
  "(0::int) < 50 \<and> (50::int) < 500 \<and> times_0_7 500 = Inr 350 \<and> rat_of_int 50 \<le> 350 + 1 \<and>
   (\<exists>chunks. chunk_text (replicate 910 97) 500 50 = Some (Inr chunks) \<and> chunks \<noteq> [] \<and>
    (if int (length (replicate 910 (97::nat))) \<le> 500 then chunks = [replicate 910 97]
     else
       (\<exists>ws. chunks = map (\<lambda>(i, j). strip (slice (replicate 910 97) i j)) ws \<and> ws \<noteq> [] \<and>
          fst (hd ws) = 0 \<and>
          (\<forall>(i, j) \<in> set ws.
             0 \<le> i \<and> i < int (length (replicate 910 (97::nat))) \<and> i + 50 < j \<and> j \<le> i + 500) \<and>
          successively (\<lambda>a b. fst b = snd a - 50) ws \<and>
          int (length (replicate 910 (97::nat))) \<le> snd (last ws) - 50 \<and>
          sorted_wrt (\<lambda>a b. fst a < fst b) ws))) \<and>
   chunk_text (replicate 910 97) 500 50 =
     Some (Inr (map (\<lambda>(i, j). strip (slice (replicate 910 97) i j)) [(0, 500), (450, 950), (900, 1400)]))"
proof -
  have h: "(0::int) < 50" "(50::int) < 500" "rat_of_int 50 \<le> 350 + 1" by simp_all
  have v: "chunk_text (replicate 910 97) 500 50 =
     Some (Inr (map (\<lambda>(i, j). strip (slice (replicate 910 97) i j)) [(0, 500), (450, 950), (900, 1400)]))"
    by (simp add: chunk_text_910 slice_nonneg strip_replicate_a)
  from chunk_text_terminates [OF h(1,2) times_0_7_500 h(3), of "replicate 910 97"] h times_0_7_500 v
  show ?thesis by blast
qed

text \<open>
  C4 as stated fails twice. With window 10 and overlap 9 the first window of
  \<open>"aaaaaaaa.aaaaaaaaaaa"\<close> is cut after the full stop at index 8, the cursor goes back to
  \<open>9 - 9 = 0\<close>, and the loop repeats for ever. And the empty text comes back as one empty
  chunk under the defaults.
\<close>

theorem chunk_text_stalls:
  "(0::int) < 9 \<and> (9::int) < 10 \<and> chunk_text (ascii ''aaaaaaaa.aaaaaaaaaaa'') 10 9 = None \<and>
   (0::int) < 50 \<and> (50::int) < 500 \<and> chunk_text [] 500 50 = Some (Inr [[]])"
proof -
  have step: "chunk_step (ascii ''aaaaaaaa.aaaaaaaaaaa'') 10 0 = Inr (ascii ''aaaaaaaa.'', 9)"
    by (simp add: chunk_step_def slice_def adjust_index_def Let_def ascii_def times_0_7_10)
  have "chunk_loop (ascii ''aaaaaaaa.aaaaaaaaaaa'') 10 9 0 [] = None"
  proof (rule chunk_loop_diverges [where I = "\<lambda>s. s = 0"])
    fix s :: int
    assume "s = 0"
    with step show "s < int (length (ascii ''aaaaaaaa.aaaaaaaaaaa'')) \<and>
      (\<exists>chunk e. chunk_step (ascii ''aaaaaaaa.aaaaaaaaaaa'') 10 s = Inr (chunk, e) \<and>
         e - 9 < int (length (ascii ''aaaaaaaa.aaaaaaaaaaa'')) \<and> e - 9 = 0)"
      by (simp add: ascii_def)
  qed simp
  then show ?thesis by (simp add: chunk_text_def ascii_def)
qed




section \<open>Properties of create_documents\<close>

text \<open>
  C1, as the code has it. For a record whose resolved text is a non-empty string,
  \<open>chunk_text\<close> returns a list \<open>chunks\<close> and the record's documents are those of the inner
  loop over it: one for each chunk whose trimmed length is at least 50, in order, with
  \<open>chunk_id\<close> the chunk's index in the whole list \<open>chunks\<close> (discarded chunks counted) and
  \<open>total_chunks\<close> the length of the whole list.
\<close>

theorem create_documents_chunk_index:
  assumes "resolve_text item = PStr s" "s \<noteq> []"
  shows "\<exists>chunks. chunk_text (preprocess_text isalnum s) 500 50 = Some (Inr chunks) \<and>
     item_documents isalnum item = Some (Inr (chunk_documents item chunks)) \<and>
     map (\<lambda>d. (content d, dict_get (meta d) (ascii ''chunk_id'') PNone,
               dict_get (meta d) (ascii ''total_chunks'') PNone))
         (chunk_documents item chunks) =
     map (\<lambda>i. (chunks ! i, PInt (int i), PInt (int (length chunks))))
         (filter (\<lambda>i. 50 \<le> length (strip (chunks ! i))) [0..<length chunks])"
proof -
  from chunk_text_default_returns [of "preprocess_text isalnum s"] obtain chunks where
    c: "chunk_text (preprocess_text isalnum s) 500 50 = Some (Inr chunks)" by blast
  from item_documents_str [OF assms c] c chunk_documents_fields [of item chunks]
  show ?thesis by blast
qed

theorem create_documents_chunk_index_witness:
  "resolve_text [(ascii ''text'', PStr (replicate 910 97))] = PStr (replicate 910 97) \<and>
   replicate 910 (97::nat) \<noteq> [] \<and>
   (\<exists>chunks. chunk_text (preprocess_text latin_isalnum (replicate 910 97)) 500 50 = Some (Inr chunks) \<and>
     item_documents latin_isalnum [(ascii ''text'', PStr (replicate 910 97))] =
       Some (Inr (chunk_documents [(ascii ''text'', PStr (replicate 910 97))] chunks)) \<and>
     map (\<lambda>d. (content d, dict_get (meta d) (ascii ''chunk_id'') PNone,
               dict_get (meta d) (ascii ''total_chunks'') PNone))
         (chunk_documents [(ascii ''text'', PStr (replicate 910 97))] chunks) =
     map (\<lambda>i. (chunks ! i, PInt (int i), PInt (int (length chunks))))
         (filter (\<lambda>i. 50 \<le> length (strip (chunks ! i))) [0..<length chunks]))"
proof -
  have r: "resolve_text [(ascii ''text'', PStr (replicate 910 97))] = PStr (replicate 910 97)"
    by (simp add: resolve_text_def)
  have n: "replicate 910 (97::nat) \<noteq> []" by simp
  from create_documents_chunk_index [OF r n, of latin_isalnum] r n show ?thesis by blast
qed

text \<open>
  C1 as stated fails. The text is 450 letters, 500 times a space and an at sign, and 100
  letters; \<open>preprocess_text\<close> removes the at signs and leaves 500 spaces in the middle. The
  three chunks are the 450 letters, an empty string (a window of spaces, discarded) and
  the 100 letters. The second document is the second survivor but carries
  \<open>chunk_id = 2\<close>, and both carry \<open>total_chunks = 3\<close>.
\<close>

theorem create_documents_counts_discarded_chunks:
  "create_documents latin_isalnum
     [[(ascii ''text'', PStr (replicate 450 97 @ concat (replicate 500 [32, 64]) @ replicate 100 98))]] =
     Some (Inr [\<lparr>content = replicate 450 97,
                  meta = [(ascii ''title'', PStr (ascii ''Unknown'')), (ascii ''url'', PStr []),
                          (ascii ''chunk_id'', PInt 0), (ascii ''total_chunks'', PInt 3),
                          (ascii ''source'', PStr (ascii ''wikipedia''))],
                  score = PNone\<rparr>,
                \<lparr>content = replicate 100 98,
                  meta = [(ascii ''title'', PStr (ascii ''Unknown'')), (ascii ''url'', PStr []),
                          (ascii ''chunk_id'', PInt 2), (ascii ''total_chunks'', PInt 3),
                          (ascii ''source'', PStr (ascii ''wikipedia''))],
                  score = PNone\<rparr>])"
  by (rule create_documents_single) (rule item_documents_gap)

text \<open>
  C9. Every document that \<open>create_documents\<close> returns has a content of trimmed length at
  least 50, and a record whose resolved text is shorter than 50 characters after
  \<open>preprocess_text\<close> contributes no document.
\<close>

theorem create_documents_min_content:
  "(create_documents isalnum data = Some (Inr docs) \<longrightarrow>
      (\<forall>d \<in> set docs. 50 \<le> length (strip (content d)))) \<and>
   (resolve_text item = PStr s \<and> length (preprocess_text isalnum s) < 50 \<longrightarrow>
      item_documents isalnum item = Some (Inr []) \<and>
      create_documents isalnum [item] = Some (Inr []))"
proof (intro conjI impI)
  assume "create_documents isalnum data = Some (Inr docs)"
  then show "\<forall>d \<in> set docs. 50 \<le> length (strip (content d))"
    unfolding create_documents_def by (rule create_documents_loop_min_length) simp
next
  assume a: "resolve_text item = PStr s \<and> length (preprocess_text isalnum s) < 50"
  then show "item_documents isalnum item = Some (Inr [])" by (auto intro: item_documents_short)
  then show "create_documents isalnum [item] = Some (Inr [])" by (rule create_documents_single)
qed

theorem create_documents_min_content_witness:
  "create_documents latin_isalnum
       [[(ascii ''text'', PStr (replicate 910 97))], [(ascii ''text'', PStr (ascii '' kisa metin ''))]] =
     Some (Inr [\<lparr>content = replicate 500 97,
                  meta = [(ascii ''title'', PStr (ascii ''Unknown'')), (ascii ''url'', PStr []),
                          (ascii ''chunk_id'', PInt 0), (ascii ''total_chunks'', PInt 3),
                          (ascii ''source'', PStr (ascii ''wikipedia''))],
                  score = PNone\<rparr>,
                \<lparr>content = replicate 460 97,
                  meta = [(ascii ''title'', PStr (ascii ''Unknown'')), (ascii ''url'', PStr []),
                          (ascii ''chunk_id'', PInt 1), (ascii ''total_chunks'', PInt 3),
                          (ascii ''source'', PStr (ascii ''wikipedia''))],
                  score = PNone\<rparr>]) \<and>
   50 \<le> length (strip (replicate 500 (97::nat))) \<and>
   50 \<le> length (strip (replicate 460 (97::nat))) \<and>
   resolve_text [(ascii ''text'', PStr (ascii '' kisa metin ''))] = PStr (ascii '' kisa metin '') \<and>
   preprocess_text latin_isalnum (ascii '' kisa metin '') = ascii ''kisa metin'' \<and>
   item_documents latin_isalnum [(ascii ''text'', PStr (ascii '' kisa metin ''))] = Some (Inr []) \<and>
   create_documents latin_isalnum [[(ascii ''text'', PStr (ascii '' kisa metin ''))]] = Some (Inr [])"
proof -
  let ?long = "[(ascii ''text'', PStr (replicate 910 97))]"
  let ?short = "[(ascii ''text'', PStr (ascii '' kisa metin ''))]"
  let ?docs = "[\<lparr>content = replicate 500 97,
                  meta = [(ascii ''title'', PStr (ascii ''Unknown'')), (ascii ''url'', PStr []),
                          (ascii ''chunk_id'', PInt 0), (ascii ''total_chunks'', PInt 3),
                          (ascii ''source'', PStr (ascii ''wikipedia''))],
                  score = PNone\<rparr>,
                \<lparr>content = replicate 460 97,
                  meta = [(ascii ''title'', PStr (ascii ''Unknown'')), (ascii ''url'', PStr []),
                          (ascii ''chunk_id'', PInt 1), (ascii ''total_chunks'', PInt 3),
                          (ascii ''source'', PStr (ascii ''wikipedia''))],
                  score = PNone\<rparr>]"
  have r: "resolve_text ?short = PStr (ascii '' kisa metin '')" by (simp add: resolve_text_def)
  have p: "preprocess_text latin_isalnum (ascii '' kisa metin '') = ascii ''kisa metin''"
    by (simp add: preprocess_text_def ascii_def keep_char_def is_word_def latin_isalnum_def
        is_space_def strip_def)
  then have l: "length (preprocess_text latin_isalnum (ascii '' kisa metin '')) < 50"
    by (simp add: ascii_def)
  note t = create_documents_min_content
    [of latin_isalnum "[?long, ?short]" ?docs ?short "ascii '' kisa metin ''"]
  from t r l have s: "item_documents latin_isalnum ?short = Some (Inr [])"
    "create_documents latin_isalnum [?short] = Some (Inr [])" by blast+
  have c: "create_documents latin_isalnum [?long, ?short] = Some (Inr ?docs)"
    by (simp add: create_documents_def item_documents_910 s(1))
  with t have "\<forall>d \<in> set ?docs. 50 \<le> length (strip (content d))" by blast
  then have "50 \<le> length (strip (replicate 500 (97::nat)))"
    "50 \<le> length (strip (replicate 460 (97::nat)))" by simp_all
  with c r p s show ?thesis by blast
qed

text \<open>
  C6, as the code has it. The text of a record is the value of the first of the keys
  \<open>text\<close>, \<open>content\<close>, \<open>article\<close>, \<open>body\<close> that is present, whatever that value is; only
  when none of the four is present is it the first string value of more than 100
  characters, or \<open>None\<close>. A record whose text is missing or empty (falsy) is skipped
  without error.
\<close>

theorem resolve_text_first_present:
  "(map_of item (ascii ''text'') = Some v \<longrightarrow> resolve_text item = v) \<and>
   (map_of item (ascii ''text'') = None \<and> map_of item (ascii ''content'') = Some v \<longrightarrow>
      resolve_text item = v) \<and>
   (map_of item (ascii ''text'') = None \<and> map_of item (ascii ''content'') = None \<and>
    map_of item (ascii ''article'') = Some v \<longrightarrow> resolve_text item = v) \<and>
   (map_of item (ascii ''text'') = None \<and> map_of item (ascii ''content'') = None \<and>
    map_of item (ascii ''article'') = None \<and> map_of item (ascii ''body'') = Some v \<longrightarrow>
      resolve_text item = v) \<and>
   (map_of item (ascii ''text'') = None \<and> map_of item (ascii ''content'') = None \<and>
    map_of item (ascii ''article'') = None \<and> map_of item (ascii ''body'') = None \<longrightarrow>
      resolve_text item =
        (case find (\<lambda>(key, value). case value of PStr s \<Rightarrow> 100 < length s | _ \<Rightarrow> False) item of
           None \<Rightarrow> PNone
         | Some (key, value) \<Rightarrow> value)) \<and>
   (\<not> truthy (resolve_text item) \<longrightarrow> item_documents isalnum item = Some (Inr []))"
  by (simp add: resolve_text_def find_text_field_def item_documents_falsy)

theorem resolve_text_first_present_witness:
  "map_of [(ascii ''text'', PStr []), (ascii ''content'', PStr (replicate 60 97))] (ascii ''text'') =
     Some (PStr []) \<and>
   resolve_text [(ascii ''text'', PStr []), (ascii ''content'', PStr (replicate 60 97))] = PStr [] \<and>
   \<not> truthy (resolve_text [(ascii ''text'', PStr []), (ascii ''content'', PStr (replicate 60 97))]) \<and>
   item_documents latin_isalnum
     [(ascii ''text'', PStr []), (ascii ''content'', PStr (replicate 60 97))] = Some (Inr []) \<and>
   resolve_text [(ascii ''title'', PStr (ascii ''a'')), (ascii ''content'', PStr (ascii ''b''))] =
     PStr (ascii ''b'') \<and>
   resolve_text [(ascii ''article'', PStr (ascii ''c'')), (ascii ''body'', PStr (ascii ''d''))] =
     PStr (ascii ''c'') \<and>
   resolve_text [(ascii ''body'', PStr (ascii ''d''))] = PStr (ascii ''d'') \<and>
   resolve_text [(ascii ''title'', PStr (ascii ''a'')), (ascii ''id'', PInt 7),
                 (ascii ''summary'', PStr (replicate 101 97)), (ascii ''notes'', PStr (replicate 200 98))] =
     PStr (replicate 101 97) \<and>
   resolve_text [(ascii ''title'', PStr (ascii ''a''))] = PNone \<and>
   item_documents latin_isalnum [(ascii ''title'', PStr (ascii ''a''))] = Some (Inr [])"
proof -
  let ?i1 = "[(ascii ''text'', PStr []), (ascii ''content'', PStr (replicate 60 97))]"
  let ?i2 = "[(ascii ''title'', PStr (ascii ''a'')), (ascii ''content'', PStr (ascii ''b''))]"
  let ?i3 = "[(ascii ''article'', PStr (ascii ''c'')), (ascii ''body'', PStr (ascii ''d''))]"
  let ?i4 = "[(ascii ''body'', PStr (ascii ''d''))]"
  let ?i5 = "[(ascii ''title'', PStr (ascii ''a'')), (ascii ''id'', PInt 7),
              (ascii ''summary'', PStr (replicate 101 97)), (ascii ''notes'', PStr (replicate 200 98))]"
  let ?i6 = "[(ascii ''title'', PStr (ascii ''a''))]"
  have m1: "map_of ?i1 (ascii ''text'') = Some (PStr [])" by (simp add: ascii_def)
  from resolve_text_first_present [of ?i1 "PStr []" latin_isalnum] m1
  have r1: "resolve_text ?i1 = PStr []" by blast
  then have t1: "\<not> truthy (resolve_text ?i1)" by simp
  with resolve_text_first_present [of ?i1 "PStr []" latin_isalnum]
  have d1: "item_documents latin_isalnum ?i1 = Some (Inr [])" by blast
  have "map_of ?i2 (ascii ''text'') = None \<and> map_of ?i2 (ascii ''content'') = Some (PStr (ascii ''b''))"
    by (simp add: ascii_def)
  with resolve_text_first_present [of ?i2 "PStr (ascii ''b'')" latin_isalnum]
  have r2: "resolve_text ?i2 = PStr (ascii ''b'')" by blast
  have "map_of ?i3 (ascii ''text'') = None \<and> map_of ?i3 (ascii ''content'') = None \<and>
      map_of ?i3 (ascii ''article'') = Some (PStr (ascii ''c''))"
    by (simp add: ascii_def)
  with resolve_text_first_present [of ?i3 "PStr (ascii ''c'')" latin_isalnum]
  have r3: "resolve_text ?i3 = PStr (ascii ''c'')" by blast
  have "map_of ?i4 (ascii ''text'') = None \<and> map_of ?i4 (ascii ''content'') = None \<and>
      map_of ?i4 (ascii ''article'') = None \<and> map_of ?i4 (ascii ''body'') = Some (PStr (ascii ''d''))"
    by (simp add: ascii_def)
  with resolve_text_first_present [of ?i4 "PStr (ascii ''d'')" latin_isalnum]
  have r4: "resolve_text ?i4 = PStr (ascii ''d'')" by blast
  have "map_of ?i5 (ascii ''text'') = None \<and> map_of ?i5 (ascii ''content'') = None \<and>
      map_of ?i5 (ascii ''article'') = None \<and> map_of ?i5 (ascii ''body'') = None"
    by (simp add: ascii_def)
  with resolve_text_first_present [of ?i5 PNone latin_isalnum]
  have "resolve_text ?i5 =
      (case find (\<lambda>(key, value). case value of PStr s \<Rightarrow> 100 < length s | _ \<Rightarrow> False) ?i5 of
         None \<Rightarrow> PNone
       | Some (key, value) \<Rightarrow> value)" by blast
  then have r5: "resolve_text ?i5 = PStr (replicate 101 97)" by (simp add: ascii_def)
  have "map_of ?i6 (ascii ''text'') = None \<and> map_of ?i6 (ascii ''content'') = None \<and>
      map_of ?i6 (ascii ''article'') = None \<and> map_of ?i6 (ascii ''body'') = None"
    by (simp add: ascii_def)
  with resolve_text_first_present [of ?i6 PNone latin_isalnum]
  have "resolve_text ?i6 =
      (case find (\<lambda>(key, value). case value of PStr s \<Rightarrow> 100 < length s | _ \<Rightarrow> False) ?i6 of
         None \<Rightarrow> PNone
       | Some (key, value) \<Rightarrow> value)" by blast
  then have r6: "resolve_text ?i6 = PNone" by (simp add: ascii_def)
  then have "\<not> truthy (resolve_text ?i6)" by simp
  with resolve_text_first_present [of ?i6 PNone latin_isalnum]
  have d6: "item_documents latin_isalnum ?i6 = Some (Inr [])" by blast
  from m1 r1 t1 d1 r2 r3 r4 r5 r6 d6 show ?thesis by blast
qed

text \<open>
  C6 as stated fails: a record with an empty \<open>text\<close> and sixty letters under \<open>content\<close> is
  skipped, although the same \<open>content\<close> alone yields a document.
\<close>

theorem empty_text_field_hides_content:
  "item_documents latin_isalnum
     [(ascii ''text'', PStr []), (ascii ''content'', PStr (replicate 60 97))] = Some (Inr []) \<and>
   item_documents latin_isalnum [(ascii ''content'', PStr (replicate 60 97))] =
     Some (Inr [\<lparr>content = replicate 60 97,
                  meta = [(ascii ''title'', PStr (ascii ''Unknown'')), (ascii ''url'', PStr []),
                          (ascii ''chunk_id'', PInt 0), (ascii ''total_chunks'', PInt 1),
                          (ascii ''source'', PStr (ascii ''wikipedia''))],
                  score = PNone\<rparr>])"
proof -
  have "resolve_text [(ascii ''text'', PStr []), (ascii ''content'', PStr (replicate 60 97))] = PStr []"
    by (simp add: resolve_text_def)
  then have "item_documents latin_isalnum
     [(ascii ''text'', PStr []), (ascii ''content'', PStr (replicate 60 97))] = Some (Inr [])"
    by (simp add: item_documents_falsy)
  with item_documents_60 show ?thesis by simp
qed

section \<open>Properties of query\<close>

text \<open>
  C5, as the code has it. When the pipeline run succeeds and the generation step raises
  an instance of \<open>Exception\<close>, the handler prints its line; if that succeeds, \<open>query\<close>
  returns the apology with the exception's text as the answer, the question unchanged,
  and an empty list of documents: the one handler of the \<open>try\<close> block does not see what
  was retrieved. If the print raises, that exception leaves \<open>query\<close>, and so does what the
  generation step raised when it is not an instance of \<open>Exception\<close>.
\<close>

theorem query_generation_failure:
  assumes "pipeline_run p question top_k = Inr result" "model p = Some generate_text"
    "generate_text (prompt (join [10, 10] (map content (case result of None \<Rightarrow> [] | Some ds \<Rightarrow> ds)))
       question) = Inl e"
  shows "fst (query py_print p question top_k) =
     (case e of
        PyBaseException msg \<Rightarrow> Inl e
      | PyException msg \<Rightarrow>
          (case py_print (error_line msg) of
             Some e' \<Rightarrow> Inl e'
           | None \<Rightarrow>
               Inr [(ascii ''answer'', RStr (apology msg)), (ascii ''documents'', RDocs []),
                    (ascii ''query'', RStr question)]))"
  using query_body_generation [OF assms]
  by (simp add: query_cases split: py_exception.split)

theorem query_generation_failure_witness:
  "pipeline_run
     \<lparr>retriever_top_k = 5,
      pipeline_run = (\<lambda>q k. Inr (Some [\<lparr>content = ascii ''Galatasaray'', meta = [], score = PNone\<rparr>])),
      model = Some (\<lambda>prompt. Inl (PyException (ascii ''quota'')))\<rparr>
     (ascii ''kim'') 3 =
     Inr (Some [\<lparr>content = ascii ''Galatasaray'', meta = [], score = PNone\<rparr>]) \<and>
   fst (query (\<lambda>line. None)
     \<lparr>retriever_top_k = 5,
      pipeline_run = (\<lambda>q k. Inr (Some [\<lparr>content = ascii ''Galatasaray'', meta = [], score = PNone\<rparr>])),
      model = Some (\<lambda>prompt. Inl (PyException (ascii ''quota'')))\<rparr>
     (ascii ''kim'') 3) =
     Inr [(ascii ''answer'', RStr (apology (ascii ''quota''))), (ascii ''documents'', RDocs []),
          (ascii ''query'', RStr (ascii ''kim''))] \<and>
   fst (query (\<lambda>line. Some (PyException (ascii ''stdout is closed'')))
     \<lparr>retriever_top_k = 5,
      pipeline_run = (\<lambda>q k. Inr (Some [\<lparr>content = ascii ''Galatasaray'', meta = [], score = PNone\<rparr>])),
      model = Some (\<lambda>prompt. Inl (PyException (ascii ''quota'')))\<rparr>
     (ascii ''kim'') 3) =
     Inl (PyException (ascii ''stdout is closed''))"
  using query_generation_failure
    [of "\<lparr>retriever_top_k = 5,
          pipeline_run = (\<lambda>q k. Inr (Some [\<lparr>content = ascii ''Galatasaray'', meta = [], score = PNone\<rparr>])),
          model = Some (\<lambda>prompt. Inl (PyException (ascii ''quota'')))\<rparr>"
        "ascii ''kim''" 3 "Some [\<lparr>content = ascii ''Galatasaray'', meta = [], score = PNone\<rparr>]"
        "\<lambda>prompt. Inl (PyException (ascii ''quota''))" "PyException (ascii ''quota'')"
        "\<lambda>line. None"]
    query_generation_failure
    [of "\<lparr>retriever_top_k = 5,
          pipeline_run = (\<lambda>q k. Inr (Some [\<lparr>content = ascii ''Galatasaray'', meta = [], score = PNone\<rparr>])),
          model = Some (\<lambda>prompt. Inl (PyException (ascii ''quota'')))\<rparr>"
        "ascii ''kim''" 3 "Some [\<lparr>content = ascii ''Galatasaray'', meta = [], score = PNone\<rparr>]"
        "\<lambda>prompt. Inl (PyException (ascii ''quota''))" "PyException (ascii ''quota'')"
        "\<lambda>line. Some (PyException (ascii ''stdout is closed''))"]
  by simp

text \<open>
  C5 as stated fails: one document is retrieved and formatted, the model raises, the
  handler's print succeeds, and the \<open>documents\<close> field of the result is empty.
\<close>

theorem query_discards_documents:
  "format_documents [\<lparr>content = ascii ''Galatasaray'', meta = [], score = PNone\<rparr>] =
     [[(ascii ''content'', PStr (ascii ''Galatasaray'')), (ascii ''title'', PStr (ascii ''Unknown'')),
       (ascii ''url'', PStr []), (ascii ''score'', PNone)]] \<and>
   fst (query (\<lambda>line. None)
     \<lparr>retriever_top_k = 5,
      pipeline_run = (\<lambda>q k. Inr (Some [\<lparr>content = ascii ''Galatasaray'', meta = [], score = PNone\<rparr>])),
      model = Some (\<lambda>prompt. Inl (PyException (ascii ''timeout'')))\<rparr>
     (ascii ''kim'') 5) =
     Inr [(ascii ''answer'', RStr (apology (ascii ''timeout''))), (ascii ''documents'', RDocs []),
          (ascii ''query'', RStr (ascii ''kim''))]"
  by (simp add: query_def query_body_def Let_def format_documents_def dict_get_def)

text \<open>
  C10, as the code has it. \<open>query\<close> has four outcomes. If the \<open>try\<close> block completes, its
  dictionary is returned, and it has exactly the keys \<open>answer\<close>, \<open>documents\<close> and \<open>query\<close>,
  with the question as given and a list of documents. If the block raises an instance of
  \<open>Exception\<close> and the handler's print succeeds, the apology dictionary is returned, with
  the same three keys, the question as given and no documents. If the handler's print
  raises, that exception leaves \<open>query\<close>. If the block raises something that is not an
  instance of \<open>Exception\<close>, it leaves \<open>query\<close> uncaught.
\<close>

theorem query_outcomes:
  "(query_body p question top_k = Inr r \<longrightarrow>
      fst (query py_print p question top_k) = Inr r \<and>
      (\<exists>answer docs. r = [(ascii ''answer'', RStr answer), (ascii ''documents'', RDocs docs),
                          (ascii ''query'', RStr question)])) \<and>
   (query_body p question top_k = Inl (PyException msg) \<and> py_print (error_line msg) = None \<longrightarrow>
      fst (query py_print p question top_k) =
        Inr [(ascii ''answer'', RStr (apology msg)), (ascii ''documents'', RDocs []),
             (ascii ''query'', RStr question)]) \<and>
   (query_body p question top_k = Inl (PyException msg) \<and> py_print (error_line msg) = Some e \<longrightarrow>
      fst (query py_print p question top_k) = Inl e) \<and>
   (query_body p question top_k = Inl (PyBaseException msg) \<longrightarrow>
      fst (query py_print p question top_k) = Inl (PyBaseException msg))"
  using query_body_shape [of p question top_k r] by (simp add: query_cases)

theorem query_outcomes_witness:
  "query_body \<lparr>retriever_top_k = 5, pipeline_run = (\<lambda>q k. Inr None), model = None\<rparr> (ascii ''kim'') 5 =
     Inr [(ascii ''answer'', RStr (no_key_answer 0)), (ascii ''documents'', RDocs []),
          (ascii ''query'', RStr (ascii ''kim''))] \<and>
   fst (query (\<lambda>line. None)
          \<lparr>retriever_top_k = 5, pipeline_run = (\<lambda>q k. Inr None), model = None\<rparr> (ascii ''kim'') 5) =
     Inr [(ascii ''answer'', RStr (no_key_answer 0)), (ascii ''documents'', RDocs []),
          (ascii ''query'', RStr (ascii ''kim''))] \<and>
   query_body \<lparr>retriever_top_k = 5, pipeline_run = (\<lambda>q k. Inl (PyException (ascii ''no index''))),
               model = None\<rparr> (ascii ''kim'') 5 = Inl (PyException (ascii ''no index'')) \<and>
   fst (query (\<lambda>line. None)
          \<lparr>retriever_top_k = 5, pipeline_run = (\<lambda>q k. Inl (PyException (ascii ''no index''))),
           model = None\<rparr> (ascii ''kim'') 5) =
     Inr [(ascii ''answer'', RStr (apology (ascii ''no index''))), (ascii ''documents'', RDocs []),
          (ascii ''query'', RStr (ascii ''kim''))] \<and>
   fst (query (\<lambda>line. Some (PyException (ascii ''stdout is closed'')))
          \<lparr>retriever_top_k = 5, pipeline_run = (\<lambda>q k. Inl (PyException (ascii ''no index''))),
           model = None\<rparr> (ascii ''kim'') 5) =
     Inl (PyException (ascii ''stdout is closed'')) \<and>
   query_body \<lparr>retriever_top_k = 5, pipeline_run = (\<lambda>q k. Inl (PyBaseException (ascii ''KeyboardInterrupt''))),
               model = None\<rparr> (ascii ''kim'') 5 = Inl (PyBaseException (ascii ''KeyboardInterrupt'')) \<and>
   fst (query (\<lambda>line. None)
          \<lparr>retriever_top_k = 5, pipeline_run = (\<lambda>q k. Inl (PyBaseException (ascii ''KeyboardInterrupt''))),
           model = None\<rparr> (ascii ''kim'') 5) =
     Inl (PyBaseException (ascii ''KeyboardInterrupt''))"
proof -
  let ?ok = "\<lparr>retriever_top_k = 5, pipeline_run = (\<lambda>q k. Inr None), model = None\<rparr>"
  let ?bad = "\<lparr>retriever_top_k = 5, pipeline_run = (\<lambda>q k. Inl (PyException (ascii ''no index''))),
               model = None\<rparr>"
  let ?int = "\<lparr>retriever_top_k = 5,
               pipeline_run = (\<lambda>q k. Inl (PyBaseException (ascii ''KeyboardInterrupt''))),
               model = None\<rparr>"
  let ?r = "[(ascii ''answer'', RStr (no_key_answer 0)), (ascii ''documents'', RDocs []),
             (ascii ''query'', RStr (ascii ''kim''))]"
  have b1: "query_body ?ok (ascii ''kim'') 5 = Inr ?r"
    by (simp add: query_body_def format_documents_def)
  have b2: "query_body ?bad (ascii ''kim'') 5 = Inl (PyException (ascii ''no index''))"
    by (simp add: query_body_def)
  have b3: "query_body ?int (ascii ''kim'') 5 = Inl (PyBaseException (ascii ''KeyboardInterrupt''))"
    by (simp add: query_body_def)
  from query_outcomes [of ?ok "ascii ''kim''" 5 ?r "\<lambda>line. None"] b1
  have q1: "fst (query (\<lambda>line. None) ?ok (ascii ''kim'') 5) = Inr ?r" by blast
  from query_outcomes [of ?bad "ascii ''kim''" 5 _ "\<lambda>line. None" "ascii ''no index''"] b2
  have q2: "fst (query (\<lambda>line. None) ?bad (ascii ''kim'') 5) =
      Inr [(ascii ''answer'', RStr (apology (ascii ''no index''))), (ascii ''documents'', RDocs []),
           (ascii ''query'', RStr (ascii ''kim''))]" by blast
  from query_outcomes [of ?bad "ascii ''kim''" 5 _ "\<lambda>line. Some (PyException (ascii ''stdout is closed''))"
      "ascii ''no index''" "PyException (ascii ''stdout is closed'')"] b2
  have q3: "fst (query (\<lambda>line. Some (PyException (ascii ''stdout is closed''))) ?bad (ascii ''kim'') 5) =
      Inl (PyException (ascii ''stdout is closed''))" by blast
  from query_outcomes [of ?int "ascii ''kim''" 5 _ "\<lambda>line. None" "ascii ''KeyboardInterrupt''"] b3
  have q4: "fst (query (\<lambda>line. None) ?int (ascii ''kim'') 5) =
      Inl (PyBaseException (ascii ''KeyboardInterrupt''))" by blast
  from b1 q1 b2 q2 q3 b3 q4 show ?thesis by blast
qed

text \<open>
  C10 as stated fails: \<open>query\<close> can raise. The generation step raises an exception whose
  text holds a g-breve (code point 287), the standard output cannot encode it, and the
  \<open>UnicodeEncodeError\<close> of the handler's print leaves \<open>query\<close>. And a \<open>KeyboardInterrupt\<close>
  during the pipeline run is not caught at all.
\<close>

theorem query_can_raise:
  "fst (query (\<lambda>line. if list_ex (\<lambda>c. 127 < c) line
                        then Some (PyException (ascii ''UnicodeEncodeError'')) else None)
     \<lparr>retriever_top_k = 5,
      pipeline_run = (\<lambda>q k. Inr (Some [\<lparr>content = ascii ''Galatasaray'', meta = [], score = PNone\<rparr>])),
      model = Some (\<lambda>prompt. Inl (PyException (ascii ''ba'' @ [287] @ ascii ''lam'')))\<rparr>
     (ascii ''kim'') 5) = Inl (PyException (ascii ''UnicodeEncodeError'')) \<and>
   fst (query (\<lambda>line. None)
     \<lparr>retriever_top_k = 5,
      pipeline_run = (\<lambda>q k. Inl (PyBaseException (ascii ''KeyboardInterrupt''))),
      model = None\<rparr>
     (ascii ''kim'') 5) = Inl (PyBaseException (ascii ''KeyboardInterrupt''))"
  by (simp add: query_def query_body_def Let_def error_line_def ascii_def)

end
